theory Spec2Isabelle
  imports Main
begin

section \<open>Strings of the scraper\<close>

text \<open>
  The scraper is a Node.js script (\<^verbatim>\<open>src/cases/search.js\<close>). Its strings are modelled as
  \<^typ>\<open>string\<close>: one \<^typ>\<open>char\<close> stands for one code unit below 256. Within that range
  the line terminators of a JavaScript regular expression are LF and CR, and the white space
  matched by \<^verbatim>\<open>\s\<close> and removed by \<^verbatim>\<open>String.prototype.trim\<close> is TAB, LF, VT, FF, CR,
  SPACE and NBSP.
\<close>

definition isLineTerminator :: "char \<Rightarrow> bool" where
  "isLineTerminator c \<longleftrightarrow> c = CHR 0x0A \<or> c = CHR 0x0D"

definition isSpace :: "char \<Rightarrow> bool" where
  "isSpace c \<longleftrightarrow>
     c = CHR 0x09 \<or> c = CHR 0x0A \<or> c = CHR 0x0B \<or> c = CHR 0x0C \<or> c = CHR 0x0D \<or>
     c = CHR 0x20 \<or> c = CHR 0xA0"

definition isDigit :: "char \<Rightarrow> bool" where
  "isDigit c \<longleftrightarrow> c \<in> set ''0123456789''"

text \<open>Case folding of the \<^verbatim>\<open>i\<close> flag, on the letters the patterns of the script use.\<close>

definition toLower :: "char \<Rightarrow> char" where
  "toLower c =
     (case map_of (zip ''ABCDEFGHIJKLMNOPQRSTUVWXYZ'' ''abcdefghijklmnopqrstuvwxyz'') c of
        Some l \<Rightarrow> l
      | None \<Rightarrow> c)"

definition isAlnum :: "char \<Rightarrow> bool" where
  \<comment> \<open>the class \<^verbatim>\<open>[0-9a-z]\<close> under the \<^verbatim>\<open>i\<close> flag\<close>
  "isAlnum c \<longleftrightarrow> toLower c \<in> set ''0123456789abcdefghijklmnopqrstuvwxyz''"

definition trim :: "string \<Rightarrow> string" where
  "trim s = rev (dropWhile isSpace (rev (dropWhile isSpace s)))"

text \<open>\<^verbatim>\<open>.*\<close>: the longest run of characters that are not line terminators.\<close>

definition dotStar :: "string \<Rightarrow> string" where
  "dotStar s = takeWhile (\<lambda>c. \<not> isLineTerminator c) s"

subsection \<open>Pieces of the regular expressions\<close>

text \<open>
  Each matcher takes the text at the current position and returns what is left after the
  piece, or \<open>None\<close> when the piece does not match there. None of the pieces below leaves
  the engine a choice: a run of digits or of white space is always followed by a character
  outside the run, so the greedy match is the only one.
\<close>

fun lit :: "string \<Rightarrow> string \<Rightarrow> string option" where
  \<comment> \<open>a literal, compared without regard to case\<close>
  "lit [] s = Some s"
| "lit (p # ps) [] = None"
| "lit (p # ps) (c # cs) = (if toLower c = toLower p then lit ps cs else None)"

definition space1 :: "string \<Rightarrow> string option" where
  \<comment> \<open>\<^verbatim>\<open>\s\<close>\<close>
  "space1 s = (case s of [] \<Rightarrow> None | c # cs \<Rightarrow> if isSpace c then Some cs else None)"

definition spaces :: "string \<Rightarrow> string option" where
  \<comment> \<open>\<^verbatim>\<open>\s+\<close>\<close>
  "spaces s = (if takeWhile isSpace s = [] then None else Some (dropWhile isSpace s))"

definition digits :: "string \<Rightarrow> (string \<times> string) option" where
  \<comment> \<open>\<^verbatim>\<open>[0-9]+\<close>: the digits and the rest\<close>
  "digits s =
     (if takeWhile isDigit s = [] then None
      else Some (takeWhile isDigit s, dropWhile isDigit s))"

definition slash :: "string \<Rightarrow> string option" where
  \<comment> \<open>\<^verbatim>\<open>\/\<close>\<close>
  "slash s = (case s of [] \<Rightarrow> None | c # cs \<Rightarrow> if c = CHR ''/'' then Some cs else None)"

definition dateToken :: "string \<Rightarrow> (string \<times> string) option" where
  \<comment> \<open>\<^verbatim>\<open>[0-9]+\/[0-9]+\/[0-9]+\<close> at the head of the text: the token and the rest\<close>
  "dateToken s =
     (case digits s of
        None \<Rightarrow> None
      | Some (d1, r1) \<Rightarrow>
          (case slash r1 of
             None \<Rightarrow> None
           | Some r1' \<Rightarrow>
               (case digits r1' of
                  None \<Rightarrow> None
                | Some (d2, r2) \<Rightarrow>
                    (case slash r2 of
                       None \<Rightarrow> None
                     | Some r2' \<Rightarrow>
                         (case digits r2' of
                            None \<Rightarrow> None
                          | Some (d3, r3) \<Rightarrow> Some (d1 @ ''/'' @ d2 @ ''/'' @ d3, r3))))))"

section \<open>The date library\<close>

text \<open>
  \<^verbatim>\<open>moment(tok, 'MM/DD/YYYY').format('YYYY-MM-DD')\<close> is a call into the moment library,
  which is not part of the repository. \<open>parseActions\<close> takes the composed call as its
  parameter \<open>fmt\<close>. \<open>momentFormat\<close> below is the behaviour of the library on the tokens
  that \<open>parseActions\<close> passes to it (three runs of digits separated by slashes), in its
  forgiving mode: the month and the day are the first two digits of their runs, the year the
  first four digits of its run, a two-digit year is completed to 19xx above 68 and to 20xx
  otherwise, and a month or day out of range makes the moment invalid. An invalid moment is
  formatted as the text \<^verbatim>\<open>Invalid date\<close>.
\<close>

definition digitVal :: "char \<Rightarrow> nat" where
  "digitVal c = (case map_of (zip ''0123456789'' [0, 1, 2, 3, 4, 5, 6, 7, 8, 9]) c of
                   Some n \<Rightarrow> n | None \<Rightarrow> 0)"

definition toInt :: "string \<Rightarrow> nat" where
  "toInt s = foldl (\<lambda>n c. 10 * n + digitVal c) 0 s"

definition digitChar :: "nat \<Rightarrow> char" where
  "digitChar n = ''0123456789'' ! (n mod 10)"

fun showNat :: "nat \<Rightarrow> string" where
  "showNat n = (if n < 10 then [digitChar n] else showNat (n div 10) @ [digitChar n])"

declare showNat.simps [simp del]

definition zeroFill :: "nat \<Rightarrow> nat \<Rightarrow> string" where
  "zeroFill w n = replicate (w - length (showNat n)) (CHR ''0'') @ showNat n"

definition isLeapYear :: "nat \<Rightarrow> bool" where
  "isLeapYear y \<longleftrightarrow> (y mod 4 = 0 \<and> y mod 100 \<noteq> 0) \<or> y mod 400 = 0"

definition daysInMonth :: "nat \<Rightarrow> nat \<Rightarrow> nat" where
  "daysInMonth y m =
     (if m = 2 then (if isLeapYear y then 29 else 28)
      else if m = 4 \<or> m = 6 \<or> m = 9 \<or> m = 11 then 30
      else 31)"

definition momentParse :: "string \<Rightarrow> (nat \<times> nat \<times> nat) option" where
  "momentParse tok =
     (case digits tok of
        None \<Rightarrow> None
      | Some (d1, r1) \<Rightarrow>
          (case digits (drop 1 r1) of
             None \<Rightarrow> None
           | Some (d2, r2) \<Rightarrow>
               (case digits (drop 1 r2) of
                  None \<Rightarrow> None
                | Some (d3, r3) \<Rightarrow>
                    (let m = toInt (take 2 d1);
                         d = toInt (take 2 d2);
                         ys = take 4 d3;
                         y = (if length ys = 2
                              then (if toInt ys > 68 then 1900 + toInt ys else 2000 + toInt ys)
                              else toInt ys)
                     in if 1 \<le> m \<and> m \<le> 12 \<and> 1 \<le> d \<and> d \<le> daysInMonth y m
                        then Some (y, m, d) else None))))"

definition momentFormat :: "string \<Rightarrow> string" where
  "momentFormat tok =
     (case momentParse tok of
        None \<Rightarrow> ''Invalid date''
      | Some (y, m, d) \<Rightarrow> zeroFill 4 y @ ''-'' @ zeroFill 2 m @ ''-'' @ zeroFill 2 d)"

section \<open>The records of a case\<close>

text \<open>
  A row of the costs table, and the properties of a case other than its costs and actions
  (\<^verbatim>\<open>_.omit(data, ['costs', 'actions'])\<close>), with the property names of the script.
\<close>

record cost =
  caseId :: string
  incurredBy :: string
  account :: string
  date :: string
  amount :: string

record summaryRow =
  caseId :: string
  summary :: string
  parties :: string
  arrestingOfficers :: string
  schedule :: string
  finances :: string
  actionsRaw :: string

section \<open>The narrative parser\<close>

text \<open>
  An action is a JavaScript object whose properties are set one by one; a property that was
  never set reads as \<^verbatim>\<open>undefined\<close>, here \<open>None\<close>. The property names are those of the
  script (\<^verbatim>\<open>intiated\<close> is its spelling); \<^verbatim>\<open>image\<close> and \<^verbatim>\<open>id\<close> carry a prime because HOL
  has constants of these names.
\<close>

record action =
  caseId :: "string option"
  date :: "string option"
  type :: "string option"
  intiated :: "string option"
  image' :: "string option"
  other :: "string option"
  id' :: "string option"

definition emptyAction :: action where
  \<comment> \<open>\<^verbatim>\<open>{}\<close>\<close>
  "emptyAction = \<lparr>caseId = None, date = None, type = None, intiated = None,
                  image' = None, other = None, id' = None\<rparr>"

definition truthy :: "string option \<Rightarrow> bool" where
  \<comment> \<open>a string-valued property in a condition: set and not the empty string\<close>
  "truthy v \<longleftrightarrow> (case v of None \<Rightarrow> False | Some s \<Rightarrow> s \<noteq> [])"

subsection \<open>\<^verbatim>\<open>text.match(actionReg)\<close>\<close>

text \<open>
  \<^verbatim>\<open>actionReg = /(^|[0-9]+\/[0-9]+\/[0-9]+)(.*)([0-9]+\/[0-9]+\/[0-9]+|$)/gim\<close>.

  \<open>actionRegAt atLineStart s\<close> is the match of the expression that starts exactly at the
  current position, where \<open>s\<close> is the text from that position on and \<open>atLineStart\<close> says
  whether the position is the start of the input or follows a line terminator (there
  \<^verbatim>\<open>^\<close> matches under the \<^verbatim>\<open>m\<close> flag). The first group tries \<^verbatim>\<open>^\<close> before the date; the
  greedy \<^verbatim>\<open>.*\<close> then runs to the end of the line, where the date alternative of the third
  group fails and \<^verbatim>\<open>$\<close> succeeds, so the first match the engine finds runs from the
  position to the end of the line.
\<close>

definition actionRegAt :: "bool \<Rightarrow> string \<Rightarrow> string option" where
  "actionRegAt atLineStart s =
     (if atLineStart then Some (dotStar s)
      else (case dateToken s of
              None \<Rightarrow> None
            | Some (tok, r) \<Rightarrow> Some (tok @ dotStar r)))"

text \<open>
  The loop of \<^verbatim>\<open>String.prototype.match\<close> for a global expression: search from
  \<^verbatim>\<open>lastIndex\<close> for the first position with a match, collect the matched text, continue
  from the end of the match, or one further when the match is empty; stop when the index
  passes the end of the text.
\<close>

function actionRegFrom :: "bool \<Rightarrow> string \<Rightarrow> string list" where
  "actionRegFrom atLineStart s =
     (case actionRegAt atLineStart s of
        None \<Rightarrow>
          (case s of [] \<Rightarrow> [] | c # cs \<Rightarrow> actionRegFrom (isLineTerminator c) cs)
      | Some m \<Rightarrow>
          (if m = [] then
             m # (case s of [] \<Rightarrow> [] | c # cs \<Rightarrow> actionRegFrom (isLineTerminator c) cs)
           else m # actionRegFrom (isLineTerminator (last m)) (drop (length m) s)))"
  by pat_completeness auto
termination
proof (relation "measure (\<lambda>(b, s). length s)")
  fix atLineStart :: bool and s m :: string
  assume m: "actionRegAt atLineStart s = Some m" "m \<noteq> []"
  have "s \<noteq> []"
  proof
    assume "s = []"
    with m show False
      by (auto simp: actionRegAt_def dotStar_def dateToken_def digits_def split: if_splits)
  qed
  with m(2) show "((isLineTerminator (last m), drop (length m) s), (atLineStart, s))
                  \<in> measure (\<lambda>(b, s). length s)"
    by (cases m; cases s) auto
qed auto

declare actionRegFrom.simps [simp del]

definition actionRegMatch :: "string \<Rightarrow> string list option" where
  \<comment> \<open>\<^verbatim>\<open>text.match(actionReg)\<close>: \<^verbatim>\<open>null\<close> when there is no match\<close>
  "actionRegMatch text =
     (case actionRegFrom True text of [] \<Rightarrow> None | m # ms \<Rightarrow> Some (m # ms))"

subsection \<open>The three patterns tried on a part\<close>

definition beginning :: "string \<Rightarrow> (string \<times> string) option" where
  \<comment> \<open>\<^verbatim>\<open>p.match(/^([0-9]+\/[0-9]+\/[0-9]+)(.*)/i)\<close>: groups 1 and 2\<close>
  "beginning p = (case dateToken p of None \<Rightarrow> None | Some (tok, r) \<Rightarrow> Some (tok, dotStar r))"

definition initiated :: "string \<Rightarrow> string option" where
  \<comment> \<open>\<^verbatim>\<open>p.match(/^this\saction\sinitiated\sby\s(.*)/i)\<close>: group 1\<close>
  "initiated p =
     Option.bind (lit ''this'' p) (\<lambda>r.
     Option.bind (space1 r) (\<lambda>r.
     Option.bind (lit ''action'' r) (\<lambda>r.
     Option.bind (space1 r) (\<lambda>r.
     Option.bind (lit ''initiated'' r) (\<lambda>r.
     Option.bind (space1 r) (\<lambda>r.
     Option.bind (lit ''by'' r) (\<lambda>r.
     Option.bind (space1 r) (\<lambda>r. Some (dotStar r)))))))))"

definition imageId :: "string \<Rightarrow> string option" where
  \<comment> \<open>\<^verbatim>\<open>p.match(/^image\s+id\s+([0-9a-z]+)/i)\<close>: group 1\<close>
  "imageId p =
     Option.bind (lit ''image'' p) (\<lambda>r.
     Option.bind (spaces r) (\<lambda>r.
     Option.bind (lit ''id'' r) (\<lambda>r.
     Option.bind (spaces r) (\<lambda>r.
       if takeWhile isAlnum r = [] then None else Some (takeWhile isAlnum r)))))"

subsection \<open>\<^verbatim>\<open>parseActions\<close>\<close>

text \<open>
  The body of \<^verbatim>\<open>parts.forEach\<close>. The state is the array \<^verbatim>\<open>actions\<close> and the object
  \<^verbatim>\<open>action\<close> being filled. A pushed object is never changed again, because \<^verbatim>\<open>action\<close> is
  bound to a fresh object right after the push.
\<close>

definition forEachPart ::
  "(string \<Rightarrow> string) \<Rightarrow> string \<Rightarrow> action list \<times> action \<Rightarrow> string \<Rightarrow> action list \<times> action"
where
  "forEachPart fmt cid st p0 =
     (let (acts, act) = st; p = trim p0 in
      if p = [] then (acts, act)
      else (case beginning p of
              Some (tok, r) \<Rightarrow>
                (acts @ [act],
                 emptyAction\<lparr>caseId := Some cid, date := Some (fmt tok), type := Some (trim r)\<rparr>)
            | None \<Rightarrow>
                (case initiated p of
                   Some i \<Rightarrow> (acts, act\<lparr>intiated := Some i\<rparr>)
                 | None \<Rightarrow>
                     (case imageId p of
                        Some i \<Rightarrow> (acts, act\<lparr>image' := Some i\<rparr>)
                      | None \<Rightarrow>
                          (acts, act\<lparr>other :=
                             Some (if truthy (other act)
                                   then the (other act) @ '' | '' @ p else p)\<rparr>)))))"

definition pushedActions :: "(string \<Rightarrow> string) \<Rightarrow> string \<Rightarrow> string \<Rightarrow> action list" where
  \<comment> \<open>the array \<^verbatim>\<open>actions\<close> when the \<^verbatim>\<open>return\<close> statement is reached\<close>
  "pushedActions fmt text cid =
     (case actionRegMatch text of
        None \<Rightarrow> []
      | Some parts \<Rightarrow> fst (foldl (forEachPart fmt cid) ([], emptyAction) parts))"

definition parseActions :: "(string \<Rightarrow> string) \<Rightarrow> string \<Rightarrow> string \<Rightarrow> action list" where
  "parseActions fmt text cid = filter (\<lambda>a. truthy (date a)) (pushedActions fmt text cid)"

section \<open>The world around the script\<close>

text \<open>
  The HTTP client, the HTML query library and the file system are collaborators of the
  script. A request is what the script hands to the client: the cache time-to-live and,
  for a case, the three form fields cut out of the case id. A reply is what the client
  passes to the callback: an error and no response object, or a response with its status
  code and body.
\<close>

datatype request =
    CaseRequest int string string string
  | FileRequest int string

datatype reply = Failed string | Response nat string

text \<open>A value passed to \<^verbatim>\<open>reject\<close> or thrown: a string, or an \<^verbatim>\<open>Error\<close> object with its message.\<close>

datatype jsval = Str string | Err string

text \<open>
  What the queries of the script find in a loaded document: the elements selected by
  \<^verbatim>\<open>.alert-danger,.alert-block\<close> (their number and text), the text of the panel body that
  follows the heading with a given id, the cells of the rows of the costs table, and the
  \<^verbatim>\<open>href\<close> attribute of every anchor of the register-of-actions panel (\<open>None\<close> for an
  anchor without the attribute).
\<close>

record page =
  alertLength :: nat
  alertText :: string
  panelBody :: "string \<Rightarrow> string"
  costRows :: "string list list"
  actionLinks :: "string option list"

text \<open>The object \<^verbatim>\<open>data\<close> of \<^verbatim>\<open>getCase\<close>: the summary row with the costs and the actions.\<close>

record caseData = summaryRow +
  costs :: "cost list"
  actions :: "action list"

datatype content =
    Html string
  | CostsCsv "cost list"
  | ActionsCsv "action list"
  | SummaryCsv "summaryRow list"
  | Json caseData
  | Pdf string

text \<open>
  The trace lists what the script does, in the order in which it does it: the writes, the
  requests handed to the client, the messages printed, and the two calls that parse the
  response (\<^verbatim>\<open>cheerio.load\<close> and \<^verbatim>\<open>parseActions\<close>). \<open>MarkCase k b\<close> is the rewrite of
  \<^verbatim>\<open>case-downloads.json\<close> after \<^verbatim>\<open>caseDownloads[k] = b\<close>, \<open>MarkAction\<close> the same for
  \<^verbatim>\<open>action-downloads.json\<close>.
\<close>

datatype event =
    Mkdirp string
  | MarkCase string bool
  | MarkAction string bool
  | Request request
  | WriteFile string content
  | CheerioLoad string
  | CallParseActions string string
  | Log string
  | ActionsSave
  | SummarySave

text \<open>
  The files and the module-level variables. The two marker files hold a JSON object from
  keys to booleans (\<open>None\<close>: the file does not exist), as the script writes them; a key
  that is not in the object reads as \<^verbatim>\<open>undefined\<close>, which holds for every key that is not
  the name of a member of \<^verbatim>\<open>Object.prototype\<close>. The two stores are objects keyed by case
  id and by action id, in memory and as last saved. \<open>files\<close> holds what
  \<^verbatim>\<open>fs.writeFileSync\<close> wrote to the other paths, by path.
\<close>

record world =
  files :: "string \<rightharpoonup> content"
  caseDownloadsFile :: "(string \<rightharpoonup> bool) option"
  actionsDownloadsFile :: "(string \<rightharpoonup> bool) option"
  summaryStore :: "string \<rightharpoonup> summaryRow"
  actionsStore :: "string \<rightharpoonup> action"
  summaryFile :: "(string \<rightharpoonup> summaryRow) option"
  actionsFile :: "(string \<rightharpoonup> action) option"
  trace :: "event list"

text \<open>
  The settings and collaborators of one run: the command line (\<^verbatim>\<open>argv\<close>), the environment
  variables, the input CSV files, the HTTP client (\<open>respond\<close>), \<^verbatim>\<open>cheerio.load\<close> with the
  queries (\<open>load\<close>) and the date library (\<open>moment\<close>).
\<close>

record env =
  TTL :: int
  new :: bool
  outputDir :: string
  cacheDir :: string
  debugTrace :: bool
  casesUrl :: "string option"
  argvCaseId :: "string option"
  argvCsv :: "string option"
  csvColumn :: string
  csvFiles :: "string \<rightharpoonup> (string \<rightharpoonup> string) list"
  respond :: "request \<Rightarrow> reply"
  load :: "string \<Rightarrow> page"
  moment :: "string \<Rightarrow> string"

text \<open>The state of the promise that \<^verbatim>\<open>getCase\<close> returns; the first settlement stays.\<close>

datatype outcome = Pending | Resolved "caseData option" | Rejected jsval

definition settle :: "outcome \<Rightarrow> outcome \<Rightarrow> outcome" where
  "settle st new_st = (case st of Pending \<Rightarrow> new_st | _ \<Rightarrow> st)"

definition isRejected :: "outcome \<Rightarrow> bool" where
  "isRejected st \<longleftrightarrow> (case st of Rejected e \<Rightarrow> True | _ \<Rightarrow> False)"

definition emit :: "event \<Rightarrow> world \<Rightarrow> world" where
  "emit e w = w\<lparr>trace := trace w @ [e]\<rparr>"

definition consoleError :: "string \<Rightarrow> world \<Rightarrow> world" where
  "consoleError msg w = emit (Log msg) w"

definition writeFileSync :: "string \<Rightarrow> content \<Rightarrow> world \<Rightarrow> world" where
  "writeFileSync path c w = emit (WriteFile path c) (w\<lparr>files := (files w)(path \<mapsto> c)\<rparr>)"

definition pathJoin :: "string list \<Rightarrow> string" where
  \<comment> \<open>\<^verbatim>\<open>path.join\<close>, without its normalisation of dots and doubled separators\<close>
  "pathJoin segs = foldr (\<lambda>a b. if b = [] then a else a @ ''/'' @ b) segs []"

definition showVal :: "jsval \<Rightarrow> string" where
  "showVal v = (case v of Str s \<Rightarrow> s | Err m \<Rightarrow> ''Error: '' @ m)"

section \<open>Downloading an attachment\<close>

definition isIdChar :: "char \<Rightarrow> bool" where
  \<comment> \<open>the class \<^verbatim>\<open>[0-9a-z-_]\<close> under the \<^verbatim>\<open>i\<close> flag\<close>
  "isIdChar c \<longleftrightarrow> isAlnum c \<or> c = CHR ''-'' \<or> c = CHR ''_''"

definition linkIdAt :: "string \<Rightarrow> string option" where
  \<comment> \<open>\<^verbatim>\<open>id=([0-9a-z-_]+)&\<close> at the head of the text: group 1\<close>
  "linkIdAt s =
     Option.bind (lit ''id='' s) (\<lambda>r.
       if takeWhile isIdChar r = [] then None
       else (case dropWhile isIdChar r of
               [] \<Rightarrow> None
             | c # cs \<Rightarrow> if c = CHR ''&'' then Some (takeWhile isIdChar r) else None))"

fun linkId :: "string \<Rightarrow> string option" where
  \<comment> \<open>\<^verbatim>\<open>a.match(/id=([0-9a-z-_]+)&/i)\<close>: group 1 of the leftmost match, \<open>None\<close> for \<^verbatim>\<open>null\<close>\<close>
  "linkId [] = None"
| "linkId (c # cs) = (case linkIdAt (c # cs) of Some v \<Rightarrow> Some v | None \<Rightarrow> linkId cs)"

definition markerSet :: "(string \<rightharpoonup> bool) \<Rightarrow> string \<Rightarrow> bool" where
  \<comment> \<open>\<^verbatim>\<open>if (downloads[key])\<close>\<close>
  "markerSet m k \<longleftrightarrow> m k = Some True"

text \<open>
  The marker object that a function reads at its start: the content of the marker file, or
  the empty object when the file does not exist.
\<close>

definition readMarkers :: "(string \<rightharpoonup> bool) option \<Rightarrow> (string \<rightharpoonup> bool)" where
  "readMarkers f = (case f of None \<Rightarrow> Map.empty | Some m \<Rightarrow> m)"

definition actionKey :: "string \<Rightarrow> string \<Rightarrow> string" where
  \<comment> \<open>\<^verbatim>\<open>`${caseId}-${id}`\<close>\<close>
  "actionKey cid aid = cid @ ''-'' @ aid"

definition actionRequest :: "env \<Rightarrow> string \<Rightarrow> string \<Rightarrow> string \<Rightarrow> world \<Rightarrow> request" where
  \<comment> \<open>the request of \<^verbatim>\<open>downloadAction\<close>, with \<^verbatim>\<open>ttl: actionTTL\<close>\<close>
  "actionRequest env cid url aid w =
     FileRequest
       (if markerSet (readMarkers (actionsDownloadsFile w)) (actionKey cid aid) then 0 else TTL env)
       url"

text \<open>
  \<^verbatim>\<open>downloadAction\<close> up to and including the call of \<^verbatim>\<open>request\<close>: the marker object and the
  world.
\<close>

definition downloadActionBegin ::
  "env \<Rightarrow> string \<Rightarrow> string \<Rightarrow> string \<Rightarrow> world \<Rightarrow> (string \<rightharpoonup> bool) \<times> world"
where
  "downloadActionBegin env cid url aid w =
     (let actionsDownloads = readMarkers (actionsDownloadsFile w);
          w1 = (if markerSet actionsDownloads (actionKey cid aid)
                then consoleError (''Action '' @ aid @ '' did not finish downloading, re-downloading.'') w
                else w);
          marked = actionsDownloads(actionKey cid aid \<mapsto> True);
          w2 = emit (MarkAction (actionKey cid aid) True) (w1\<lparr>actionsDownloadsFile := Some marked\<rparr>);
          w3 = emit (Request (actionRequest env cid url aid w)) w2
      in (marked, w3))"

definition downloadAction ::
  "env \<Rightarrow> string \<Rightarrow> string \<Rightarrow> string \<Rightarrow> string \<Rightarrow> action list \<Rightarrow> world \<Rightarrow> jsval option \<times> world"
where
  \<comment> \<open>the result is \<open>None\<close> when the promise is resolved, the rejection otherwise\<close>
  "downloadAction env cid url aid output acts w =
     (let (marked, w1) = downloadActionBegin env cid url aid w;
          found = find (\<lambda>a. caseId a = Some cid \<and> image' a = Some aid) acts
      in case respond env (actionRequest env cid url aid w) of
           Failed e \<Rightarrow> (Some (Err e), w1)
         | Response status body \<Rightarrow>
             if status \<ge> 300 then
               (Some (Err (''Error of status code '' @ [CHR 0x22] @ showNat status @ [CHR 0x22] @
                            '' getting file '' @ url)),
                w1)
             else
               (let w2 = emit (MarkAction (actionKey cid aid) False)
                           (w1\<lparr>actionsDownloadsFile :=
                                 Some (marked(actionKey cid aid \<mapsto> False))\<rparr>);
                    prefix = (case found of
                                None \<Rightarrow> ''unknown-date-''
                              | Some a \<Rightarrow> if truthy (date a) then the (date a)
                                          else ''unknown-date-'');
                    w3 = writeFileSync
                           (pathJoin [output, prefix @ ''-'' @ cid @ ''_'' @ aid @ ''.pdf''])
                           (Pdf body) w2
                in (None, w3)))"

section \<open>Fetching a case\<close>

definition outputCaseDir :: "env \<Rightarrow> string \<Rightarrow> string" where
  "outputCaseDir env cid = pathJoin [outputDir env, cid]"

definition outputCaseActionsDir :: "env \<Rightarrow> string \<Rightarrow> string" where
  "outputCaseActionsDir env cid = pathJoin [outputDir env, cid, ''actions'']"

definition rawOutputHTML :: "env \<Rightarrow> string \<Rightarrow> string" where
  "rawOutputHTML env cid = pathJoin [outputCaseDir env cid, ''case.'' @ cid @ ''.html'']"

text \<open>
  The request of \<^verbatim>\<open>getCase\<close>, in the world in which \<^verbatim>\<open>getCase\<close> is called: \<^verbatim>\<open>caseTTL\<close> is
  zero when the marker of the case is set in the marker file, otherwise \<^verbatim>\<open>TTL\<close>, and the
  case id is cut in three.
\<close>

definition caseRequest :: "env \<Rightarrow> string \<Rightarrow> world \<Rightarrow> request" where
  "caseRequest env cid w =
     CaseRequest
       (if markerSet (readMarkers (caseDownloadsFile w)) cid then 0 else TTL env)
       (take 2 cid) (take 2 (drop 2 cid)) (drop 4 cid)"

definition cell :: "string list \<Rightarrow> nat \<Rightarrow> string" where
  \<comment> \<open>\<^verbatim>\<open>$($tds[i]).text().trim()\<close>: a missing cell has the empty text\<close>
  "cell tds i = (if i < length tds then trim (tds ! i) else [])"

definition costOf :: "env \<Rightarrow> string \<Rightarrow> string list \<Rightarrow> cost" where
  "costOf env cid tds =
     \<lparr>cost.caseId = cid, incurredBy = cell tds 0, account = cell tds 1,
      cost.date = moment env (cell tds 2), amount = cell tds 3\<rparr>"

text \<open>
  The object \<^verbatim>\<open>data\<close> as it is when the files are written. \<^verbatim>\<open>data.parties\<close> is assigned
  twice, first from the panel of the parties and then from the panel of the offense, so it
  holds the latter.
\<close>

definition extractData :: "env \<Rightarrow> string \<Rightarrow> page \<Rightarrow> caseData" where
  "extractData env cid pg =
     \<lparr>summaryRow.caseId = cid,
      summary = trim (panelBody pg ''summary''),
      parties = trim (panelBody pg ''offense_info''),
      arrestingOfficers = trim (panelBody pg ''arresting_officers''),
      schedule = trim (panelBody pg ''case_schedule''),
      finances = trim (panelBody pg ''financial_activity''),
      actionsRaw = trim (panelBody pg ''register_of_actions''),
      costs = map (costOf env cid) (costRows pg),
      actions = parseActions (moment env) (trim (panelBody pg ''register_of_actions'')) cid\<rparr>"

definition replaceSpaces :: "string \<Rightarrow> string" where
  \<comment> \<open>\<^verbatim>\<open>.replace(/(\s|\t)+/, ' ')\<close>: the first run of white space becomes one space\<close>
  "replaceSpaces s =
     (let a = takeWhile (\<lambda>c. \<not> isSpace c) s; b = dropWhile (\<lambda>c. \<not> isSpace c) s
      in if b = [] then s else a @ '' '' @ dropWhile isSpace b)"

text \<open>
  The loop over the links of the narrative panel. It ends when the links are exhausted
  (\<open>Done\<close>), when the extraction of the attachment id throws a \<^verbatim>\<open>TypeError\<close>, which
  nothing in the callback catches (\<open>Crashed\<close>), or when the process ends while the callback
  waits for an attachment (\<open>Exited\<close>). The last happens when the promise of \<^verbatim>\<open>getCase\<close> is
  already rejected and the caller reacts to the rejection by ending the process: the
  caller runs as soon as the callback reaches its first \<^verbatim>\<open>await\<close>, after \<^verbatim>\<open>downloadAction\<close>
  has handed its request to the client. \<open>leaving\<close> says whether this is the case.
\<close>

datatype loopEnd = Done | Crashed | Exited

fun downloadLinks ::
  "env \<Rightarrow> bool \<Rightarrow> string \<Rightarrow> string \<Rightarrow> action list \<Rightarrow> string option list \<Rightarrow> world
   \<Rightarrow> loopEnd \<times> world"
where
  "downloadLinks env leaving cid output acts [] w = (Done, w)"
| "downloadLinks env leaving cid output acts (a # rest) w =
     (case a of
        None \<Rightarrow> (Crashed, w)
      | Some href \<Rightarrow>
          (case linkId href of
             None \<Rightarrow> (Crashed, w)
           | Some aid \<Rightarrow>
               if leaving then (Exited, snd (downloadActionBegin env cid href aid w))
               else
                 (case downloadAction env cid href aid output acts w of
                    (None, w1) \<Rightarrow>
                      downloadLinks env leaving cid output acts rest
                        (consoleError (''Downloaded image '' @ aid @ '' for case '' @ cid) w1)
                  | (Some e, w1) \<Rightarrow>
                      downloadLinks env leaving cid output acts rest
                        (consoleError
                           (''There was an error downloading image '' @ aid @ '' for case '' @ cid)
                           (consoleError (showVal e) w1)))))"

definition numbered :: "string \<Rightarrow> action list \<Rightarrow> action list" where
  \<comment> \<open>\<^verbatim>\<open>a.id = `${caseId}-${ai}`\<close> for every action\<close>
  "numbered cid acts =
     map (\<lambda>(ai, a). a\<lparr>id' := Some (cid @ ''-'' @ showNat ai)\<rparr>) (enumerate 0 acts)"

definition actionsSave :: "world \<Rightarrow> world" where
  "actionsSave w = emit ActionsSave (w\<lparr>actionsFile := Some (actionsStore w)\<rparr>)"

definition summarySave :: "world \<Rightarrow> world" where
  \<comment> \<open>rows without a case id are left out of the file\<close>
  "summarySave w =
     emit SummarySave
       (w\<lparr>summaryFile :=
            Some (\<lambda>k. case summaryStore w k of
                         None \<Rightarrow> None
                       | Some r \<Rightarrow> if summaryRow.caseId r = [] then None else Some r)\<rparr>)"

definition saveCase :: "string \<Rightarrow> string \<Rightarrow> caseData \<Rightarrow> world \<Rightarrow> world" where
  \<comment> \<open>the end of the callback, from \<^verbatim>\<open>// Save CSVs\<close> to \<^verbatim>\<open>summarySave()\<close>\<close>
  "saveCase dir cid data w =
     (let w1 = writeFileSync (pathJoin [dir, ''case.'' @ cid @ ''.costs.csv''])
                 (CostsCsv (costs data)) w;
          w2 = writeFileSync (pathJoin [dir, ''case.'' @ cid @ ''.actions.csv''])
                 (ActionsCsv (actions data)) w1;
          w3 = writeFileSync (pathJoin [dir, ''case.'' @ cid @ ''.csv''])
                 (SummaryCsv [summaryRow.truncate data]) w2;
          w4 = writeFileSync (pathJoin [dir, ''case.'' @ cid @ ''.json'']) (Json data) w3;
          w5 = actionsSave
                 (w4\<lparr>actionsStore :=
                       foldl (\<lambda>m a. case id' a of None \<Rightarrow> m | Some k \<Rightarrow> m(k \<mapsto> a))
                         (actionsStore w4) (numbered cid (actions data))\<rparr>)
      in summarySave (w5\<lparr>summaryStore := (summaryStore w5)(cid \<mapsto> summaryRow.truncate data)\<rparr>))"

text \<open>
  The callback of the request for the case page. \<^verbatim>\<open>reject\<close> does not leave the callback:
  after a status of 300 or more, and after an error banner, the statements that follow are
  executed all the same, and the later \<^verbatim>\<open>resolve\<close> has no effect on the settled promise.
  After a transport error the client passes no response object, so reading
  \<^verbatim>\<open>response.statusCode\<close> throws and ends the callback.

  \<open>receiveCase\<close> is the callback from the check of the status to \<^verbatim>\<open>// Update tracking\<close>:
  it gives the state of the promise, the object \<^verbatim>\<open>data\<close> and the world.
\<close>

definition receiveCase ::
  "env \<Rightarrow> string \<Rightarrow> (string \<rightharpoonup> bool) \<Rightarrow> nat \<Rightarrow> string \<Rightarrow> world
   \<Rightarrow> outcome \<times> caseData \<times> world"
where
  "receiveCase env cid caseDownloads status body w =
     (let st1 = (if status \<ge> 300
                 then Rejected (Str (''Status response of Case URL: '' @ showNat status))
                 else Pending);
          w1 = writeFileSync (rawOutputHTML env cid) (Html body) w;
          w2 = emit (CheerioLoad body) w1;
          pg = load env body;
          banner = (alertLength pg \<noteq> 0 \<and> alertText pg \<noteq> []);
          st2 = (if banner
                 then settle st1 (Rejected (Err (''Error searching for '' @ cid)))
                 else st1);
          w3 = (if banner
                then consoleError
                       (''Error searching for '' @ cid @
                        '', use the --no-cache option to force a re-fetch.'')
                       (consoleError
                          (''Error from search'' @ [CHR 0x0A] @ ''==='' @ [CHR 0x0A] @
                           trim (replaceSpaces (alertText pg)) @ [CHR 0x0A] @ ''===='' @
                           [CHR 0x0A]) w2)
                else w2);
          data = extractData env cid pg;
          w4 = emit (CallParseActions (actionsRaw data) cid) w3;
          w5 = emit (MarkCase cid False)
                 (w4\<lparr>caseDownloadsFile := Some (caseDownloads(cid \<mapsto> False))\<rparr>)
      in (st2, data, w5))"

definition caseCallback ::
  "env \<Rightarrow> bool \<Rightarrow> string \<Rightarrow> (string \<rightharpoonup> bool) \<Rightarrow> reply \<Rightarrow> world \<Rightarrow> outcome \<times> world"
where
  "caseCallback env exits cid caseDownloads rep w =
     (case rep of
        Failed e \<Rightarrow> (Rejected (Str ''Error requesting Case URL.''), consoleError e w)
      | Response status body \<Rightarrow>
          (let (st2, data, w5) = receiveCase env cid caseDownloads status body w
           in case downloadLinks env (exits \<and> isRejected st2) cid
                     (outputCaseActionsDir env cid) (actions data)
                     (actionLinks (load env body)) w5 of
                (Done, w6) \<Rightarrow>
                  (settle st2 (Resolved (Some (data\<lparr>actions := numbered cid (actions data)\<rparr>))),
                   saveCase (outputCaseDir env cid) cid data w6)
              | (Crashed, w6) \<Rightarrow> (st2, w6)
              | (Exited, w6) \<Rightarrow> (st2, w6)))"

text \<open>
  \<^verbatim>\<open>getCase\<close>. \<open>getCaseBegin\<close> is the part before the promise is created: the directories,
  the marker object read from its file, and the marker of the case set and written.
  \<open>exits\<close> says whether the caller ends the process when the promise is rejected, as the
  \<^verbatim>\<open>catch\<close> block of \<^verbatim>\<open>getCases\<close> does.
\<close>

definition getCaseBegin :: "env \<Rightarrow> string \<Rightarrow> world \<Rightarrow> (string \<rightharpoonup> bool) \<times> world" where
  "getCaseBegin env cid w =
     (let w1 = emit (Mkdirp (outputCaseActionsDir env cid)) (emit (Mkdirp (outputCaseDir env cid)) w);
          caseDownloads = readMarkers (caseDownloadsFile w1);
          w2 = (if markerSet caseDownloads cid
                then consoleError (''Case '' @ cid @ '' did not finish downloading, re-downloading.'') w1
                else w1);
          marked = caseDownloads(cid \<mapsto> True);
          w3 = emit (MarkCase cid True) (w2\<lparr>caseDownloadsFile := Some marked\<rparr>)
      in (marked, w3))"

definition getCase :: "env \<Rightarrow> bool \<Rightarrow> string \<Rightarrow> world \<Rightarrow> outcome \<times> world" where
  "getCase env exits cid w =
     (let (marked, w3) = getCaseBegin env cid w
      in if new env \<and> files w3 (rawOutputHTML env cid) \<noteq> None then
           (Resolved None,
            consoleError
              (''The --new option is used and the '' @ cid @ '' case HTML output exists.'') w3)
         else
           (let w4 = consoleError
                       ([CHR 0x0A] @ ''Getting case'' @
                        (if TTL env \<noteq> 0 then [] else '' (cache off)'') @ '': '' @ cid) w3;
                w5 = emit (Request (caseRequest env cid w)) w4
            in caseCallback env exits cid marked (respond env (caseRequest env cid w)) w5))"

section \<open>The batch driver and the script\<close>

text \<open>
  How a run ends: it runs to its end, the process is ended by \<^verbatim>\<open>process.exit\<close> with a
  status, an error is thrown or a promise rejected with nothing to handle it, or the run
  waits for a promise that is never settled.
\<close>

datatype ending = Completed | Exit nat | Uncaught jsval | Stalled

fun getCasesLoop :: "env \<Rightarrow> string \<Rightarrow> (string \<rightharpoonup> string) list \<Rightarrow> world \<Rightarrow> ending \<times> world" where
  "getCasesLoop env col [] w = (Completed, w)"
| "getCasesLoop env col (row # rows) w =
     (case row col of
        None \<Rightarrow> getCasesLoop env col rows w
      | Some cid \<Rightarrow>
          if cid = [] then getCasesLoop env col rows w
          else
            (case getCase env True cid w of
               (Resolved d, w1) \<Rightarrow> getCasesLoop env col rows w1
             | (Rejected e, w1) \<Rightarrow>
                 (Exit 1, if debugTrace env then consoleError (showVal e) w1 else w1)
             | (Pending, w1) \<Rightarrow> (Stalled, w1)))"

definition getCases :: "env \<Rightarrow> string \<Rightarrow> string \<Rightarrow> world \<Rightarrow> ending \<times> world" where
  "getCases env csvPath col w =
     (case csvFiles env csvPath of
        None \<Rightarrow>
          (Exit 1,
           consoleError (''Unable to find CSV at '' @ [CHR 0x22] @ csvPath @ [CHR 0x22]) w)
      | Some inputCsv \<Rightarrow>
          (case inputCsv of
             [] \<Rightarrow>
               (Exit 1,
                consoleError
                  (''Unable to find any rows in the CSV at '' @ [CHR 0x22] @ csvPath @ [CHR 0x22])
                  w)
           | row # rows \<Rightarrow>
               if \<not> truthy (row col) then
                 (Exit 1,
                  consoleError
                    (''Unable to find the '' @ [CHR 0x22] @ col @ [CHR 0x22] @
                     '' in the CSV at '' @ [CHR 0x22] @ csvPath @ [CHR 0x22]) w)
               else getCasesLoop env col inputCsv w))"

text \<open>
  \<^verbatim>\<open>main\<close>. With \<^verbatim>\<open>--case-id\<close> nothing handles a rejection of \<^verbatim>\<open>getCase\<close>; the callback of
  the fetch is taken to run on, as it does where an unhandled rejection only prints a
  warning.
\<close>

definition main :: "env \<Rightarrow> world \<Rightarrow> ending \<times> world" where
  "main env w =
     (if truthy (argvCaseId env) then
        (case getCase env False (the (argvCaseId env)) w of
           (Resolved d, w1) \<Rightarrow> (Completed, w1)
         | (Rejected e, w1) \<Rightarrow> (Uncaught e, w1)
         | (Pending, w1) \<Rightarrow> (Stalled, w1))
      else if truthy (argvCsv env) then getCases env (the (argvCsv env)) (csvColumn env) w
      else (Exit 1, consoleError ''The --case-id or --csv options must be used.'' w))"

text \<open>
  The statements of the module in their order: the cache directory, the check of the
  configuration, the output directory, the two stores read from their files, and \<^verbatim>\<open>main\<close>.
\<close>

definition script :: "env \<Rightarrow> world \<Rightarrow> ending \<times> world" where
  "script env w =
     (let w1 = emit (Mkdirp (cacheDir env)) w
      in if \<not> truthy (casesUrl env) then
           (Uncaught (Err ''Make sure the SCRAPER_CASES_URL environment variable is set.''), w1)
         else
           main env
             ((emit (Mkdirp (outputDir env)) w1)
                \<lparr>summaryStore := (case summaryFile w1 of None \<Rightarrow> Map.empty | Some m \<Rightarrow> m),
                 actionsStore := (case actionsFile w1 of None \<Rightarrow> Map.empty | Some m \<Rightarrow> m)\<rparr>))"

section \<open>Example inputs\<close>

text \<open>The narrative of the example in the specification, on one line.\<close>

definition narrativeOneLine :: string where
  "narrativeOneLine = ''1/2/2020 Case Filed 1/5/2020 Answer Filed Image ID ab12''"

text \<open>A narrative of two lines, each starting with a date.\<close>

definition narrativeTwoLines :: string where
  "narrativeTwoLines = ''1/2/2020 Case Filed'' @ [CHR 0x0A] @ ''1/5/2020 Answer Filed''"

text \<open>A narrative whose first date has month 13 and day 45.\<close>

definition narrativeBadDate :: string where
  "narrativeBadDate = ''13/45/2020 Motion Filed'' @ [CHR 0x0A] @ ''1/5/2020 Answer Filed''"

text \<open>An action without its date, to compare the other properties of two actions.\<close>

definition dateless :: "action \<Rightarrow> action" where
  "dateless a = a\<lparr>date := None\<rparr>"

text \<open>
  A world in which nothing has been written yet, and settings for a run over a CSV file
  with two case ids, the cache time-to-live at its default of one day.
\<close>

definition world0 :: world where
  "world0 = \<lparr>files = Map.empty, caseDownloadsFile = None, actionsDownloadsFile = None,
             summaryStore = Map.empty, actionsStore = Map.empty,
             summaryFile = None, actionsFile = None, trace = []\<rparr>"

definition emptyPage :: page where
  "emptyPage = \<lparr>alertLength = 0, alertText = [], panelBody = (\<lambda>h. []), costRows = [],
                actionLinks = []\<rparr>"

definition envTimeout :: env where
  \<comment> \<open>every request fails in transport\<close>
  "envTimeout =
     \<lparr>TTL = 86400000, new = False, outputDir = ''output/cases'', cacheDir = ''.cache'',
      debugTrace = False, casesUrl = Some ''https://court.example/search'',
      argvCaseId = None, argvCsv = Some ''ids.csv'', csvColumn = ''case_id'',
      csvFiles = [''ids.csv'' \<mapsto>
                   [[''case_id'' \<mapsto> ''CR1900001''], [''case_id'' \<mapsto> ''CR1900002'']]],
      respond = (\<lambda>r. Failed ''ETIMEDOUT''), load = (\<lambda>b. emptyPage), moment = momentFormat\<rparr>"

definition envStatus500 :: env where
  \<comment> \<open>every request is answered with status 500\<close>
  "envStatus500 = envTimeout\<lparr>respond := (\<lambda>r. Response 500 ''Server Error'')\<rparr>"

definition envBanner :: env where
  \<comment> \<open>status 200 and a page that holds nothing but the banner \<^verbatim>\<open>No case found\<close>\<close>
  "envBanner =
     envTimeout\<lparr>respond := (\<lambda>r. Response 200 ''<html>No case found</html>''),
                load := (\<lambda>b. emptyPage\<lparr>alertLength := 1, alertText := ''No case found''\<rparr>)\<rparr>"

definition envAttachment :: env where
  \<comment> \<open>status 200, a narrative of two dated lines and one attachment link\<close>
  "envAttachment =
     envTimeout\<lparr>respond := (\<lambda>r. Response 200 ''<html>register</html>''),
                load := (\<lambda>b. emptyPage
                           \<lparr>panelBody := (\<lambda>h. if h = ''register_of_actions''
                                                then narrativeTwoLines else []),
                            actionLinks := [Some ''view?id=ab12&x=1'']\<rparr>)\<rparr>"

definition envNoId :: env where
  \<comment> \<open>as before, with a link without the \<^verbatim>\<open>id\<close> parameter in front\<close>
  "envNoId =
     envTimeout\<lparr>respond := (\<lambda>r. Response 200 ''<html>register</html>''),
                load := (\<lambda>b. emptyPage
                           \<lparr>panelBody := (\<lambda>h. if h = ''register_of_actions''
                                                then narrativeTwoLines else []),
                            actionLinks := [Some ''view?doc=17'', Some ''view?id=ab12&x=1'']\<rparr>)\<rparr>"

text \<open>A world in which the markers of a case and of an attachment were left set.\<close>

definition worldInterrupted :: world where
  "worldInterrupted =
     world0\<lparr>caseDownloadsFile := Some [''CR1900001'' \<mapsto> True],
            actionsDownloadsFile := Some [''CR1900001-ab12'' \<mapsto> True]\<rparr>"

text \<open>A world in which the page of the case was saved by an earlier run, and \<^verbatim>\<open>--new\<close>.\<close>

definition worldFetched :: world where
  "worldFetched =
     world0\<lparr>files := [''output/cases/CR1900001/case.CR1900001.html'' \<mapsto> Html ''<html>old</html>''],
            caseDownloadsFile := Some [''CR1900001'' \<mapsto> False]\<rparr>"

definition envNew :: env where
  "envNew = envAttachment\<lparr>new := True\<rparr>"

text \<open>
  The events of the fetch of the case page itself: the rewrites of the case marker, the
  request for the page, the write of the raw page, and the two parsing calls. What comes
  from the attachments and from the final saving is of another kind.
\<close>

fun caseFetchEvent :: "event \<Rightarrow> bool" where
  "caseFetchEvent (MarkCase k b) = True"
| "caseFetchEvent (Request (CaseRequest t a b c)) = True"
| "caseFetchEvent (WriteFile p (Html h)) = True"
| "caseFetchEvent (CheerioLoad b) = True"
| "caseFetchEvent (CallParseActions t c) = True"
| "caseFetchEvent e = False"

section \<open>Properties of the narrative parser\<close>

lemma digits_append: "digits s = Some (d, r) \<Longrightarrow> s = d @ r"
  by (auto simp: digits_def split: if_splits)

lemma slash_append: "slash s = Some r \<Longrightarrow> s = CHR ''/'' # r"
  by (auto simp: slash_def split: list.splits if_splits)

lemma dateToken_append: "dateToken s = Some (tok, r) \<Longrightarrow> s = tok @ r"
  by (auto simp: dateToken_def split: option.splits dest!: digits_append slash_append)

lemma actionRegAt_set: "actionRegAt b s = Some m \<Longrightarrow> set m \<subseteq> set s"
  by (auto simp: actionRegAt_def dotStar_def split: if_splits option.splits
      dest!: dateToken_append dest: set_takeWhileD)

text \<open>Every part that \<^verbatim>\<open>text.match(actionReg)\<close> returns is made of characters of the text.\<close>

lemma actionRegFrom_set: "m \<in> set (actionRegFrom b s) \<Longrightarrow> set m \<subseteq> set s"
proof (induction b s rule: actionRegFrom.induct)
  case (1 b s)
  note mem = "1.prems" [unfolded actionRegFrom.simps [of b s]]
  show ?case
  proof (cases "actionRegAt b s")
    case None
    show ?thesis
    proof (cases s)
      case Nil
      with mem None show ?thesis by simp
    next
      case (Cons c cs)
      with mem None have "m \<in> set (actionRegFrom (isLineTerminator c) cs)" by simp
      from "1.IH"(1) [OF None Cons this] Cons show ?thesis by auto
    qed
  next
    case (Some m')
    note at = actionRegAt_set [OF Some]
    show ?thesis
    proof (cases "m' = []")
      case True
      show ?thesis
      proof (cases s)
        case Nil
        with mem Some True show ?thesis by simp
      next
        case (Cons c cs)
        with mem Some True have "m = [] \<or> m \<in> set (actionRegFrom (isLineTerminator c) cs)"
          by auto
        then show ?thesis
        proof
          assume "m = []"
          then show ?thesis by simp
        next
          assume "m \<in> set (actionRegFrom (isLineTerminator c) cs)"
          from "1.IH"(2) [OF Some True Cons this] Cons show ?thesis by auto
        qed
      qed
    next
      case False
      with Some mem
      have "m = m' \<or> m \<in> set (actionRegFrom (isLineTerminator (last m')) (drop (length m') s))"
        by auto
      then show ?thesis
      proof
        assume "m = m'"
        with at show ?thesis by simp
      next
        assume "m \<in> set (actionRegFrom (isLineTerminator (last m')) (drop (length m') s))"
        from "1.IH"(3) [OF Some False this] show ?thesis
          by (auto dest: in_set_dropD)
      qed
    qed
  qed
qed

lemma trim_spaces:
  assumes "\<forall>c\<in>set p. isSpace c"
  shows "trim p = []"
  using assms by (auto simp: trim_def dest: set_dropWhileD)

lemma forEachPart_blank: "trim p = [] \<Longrightarrow> forEachPart fmt cid st p = st"
  by (simp add: forEachPart_def split: prod.splits)

lemma foldl_forEachPart_blank:
  "\<forall>p\<in>set ps. trim p = [] \<Longrightarrow> foldl (forEachPart fmt cid) st ps = st"
  by (induction ps arbitrary: st) (simp_all add: forEachPart_blank)

lemma parseActions_blank:
  assumes "\<forall>c\<in>set text. isSpace c"
  shows "parseActions fmt text cid = []"
proof -
  have blank: "trim p = []" if "p \<in> set (actionRegFrom True text)" for p
  proof (rule trim_spaces)
    from actionRegFrom_set [OF that] assms show "\<forall>c\<in>set p. isSpace c" by blast
  qed
  have "\<forall>p\<in>set ps. trim p = []" if "actionRegMatch text = Some ps" for ps
  proof -
    from that have "ps = actionRegFrom True text"
      by (simp add: actionRegMatch_def split: list.splits)
    with blank show ?thesis by simp
  qed
  then show ?thesis
    by (simp add: parseActions_def pushedActions_def foldl_forEachPart_blank split: option.splits)
qed

text \<open>
  Claim C1. For the narrative
  \<^verbatim>\<open>1/2/2020 Case Filed 1/5/2020 Answer Filed Image ID ab12\<close> the specification expects two
  actions. The script returns none, whatever the case id and whatever the date library
  does: the whole line is one part, its action is opened but never pushed, and the only
  object pushed is the initial empty one, which the filter removes.
\<close>

theorem parseActions_example_empty:
  "parseActions fmt narrativeOneLine cid = []"
  unfolding narrativeOneLine_def by code_simp

text \<open>
  Claim C6. Every action that \<open>parseActions\<close> returns has a date that is set and is not
  the empty string, and a narrative that is empty or consists of white space only gives the
  empty list.
\<close>

theorem parseActions_date_nonempty:
  "(\<forall>a\<in>set (parseActions fmt text cid). \<exists>d. date a = Some d \<and> d \<noteq> []) \<and>
   ((\<forall>c\<in>set text. isSpace c) \<longrightarrow> parseActions fmt text cid = [])"
proof (intro conjI ballI impI)
  fix a
  assume "a \<in> set (parseActions fmt text cid)"
  then have "truthy (date a)" by (simp add: parseActions_def)
  then show "\<exists>d. date a = Some d \<and> d \<noteq> []"
    by (cases "date a") (simp_all add: truthy_def)
next
  assume "\<forall>c\<in>set text. isSpace c"
  then show "parseActions fmt text cid = []" by (rule parseActions_blank)
qed

theorem parseActions_date_nonempty_witness:
  "parseActions momentFormat narrativeTwoLines ''CR1900001'' \<noteq> [] \<and>
   (\<exists>d. date (hd (parseActions momentFormat narrativeTwoLines ''CR1900001'')) = Some d \<and>
        d \<noteq> []) \<and>
   isSpace (CHR 0x20) \<and> isSpace (CHR 0x0A) \<and> isSpace (CHR 0x09) \<and>
   parseActions momentFormat [CHR 0x20, CHR 0x0A, CHR 0x09] ''CR1900001'' = []"
proof -
  have ne: "parseActions momentFormat narrativeTwoLines ''CR1900001'' \<noteq> []"
    unfolding narrativeTwoLines_def by code_simp
  then have mem: "hd (parseActions momentFormat narrativeTwoLines ''CR1900001'')
                  \<in> set (parseActions momentFormat narrativeTwoLines ''CR1900001'')"
    by simp
  have sp: "isSpace (CHR 0x20) \<and> isSpace (CHR 0x0A) \<and> isSpace (CHR 0x09)"
    by (simp add: isSpace_def)
  then have all: "\<forall>c\<in>set [CHR 0x20, CHR 0x0A, CHR 0x09]. isSpace c"
    by simp
  from ne mem sp all
    parseActions_date_nonempty [of momentFormat narrativeTwoLines "''CR1900001''"]
    parseActions_date_nonempty [of momentFormat "[CHR 0x20, CHR 0x0A, CHR 0x09]" "''CR1900001''"]
  show ?thesis by blast
qed


lemma beginning_nonempty: "beginning p = Some (tok, r) \<Longrightarrow> p \<noteq> []"
  by (auto simp: beginning_def dateToken_def digits_def split: option.splits)

lemma forEachPart_beginning:
  assumes "beginning (trim p) = Some (tok, r)"
  shows "forEachPart fmt cid (acts, act) p =
         (acts @ [act],
          emptyAction\<lparr>caseId := Some cid, date := Some (fmt tok), type := Some (trim r)\<rparr>)"
  using assms beginning_nonempty [OF assms] by (simp add: forEachPart_def Let_def)

lemma forEachPart_other:
  assumes "beginning (trim p) = None"
  shows "\<exists>act'. forEachPart fmt cid (acts, act) p = (acts, act') \<and>
                 caseId act' = caseId act \<and> date act' = date act \<and>
                 type act' = type act"
  using assms by (simp add: forEachPart_def Let_def split: option.splits)


lemma forEachPart_caseId:
  assumes "\<forall>a\<in>set (fst st). date a \<noteq> None \<longrightarrow> caseId a = Some cid"
      and "date (snd st) \<noteq> None \<longrightarrow> caseId (snd st) = Some cid"
  shows "(\<forall>a\<in>set (fst (forEachPart fmt cid st p)).
            date a \<noteq> None \<longrightarrow> caseId a = Some cid) \<and>
         (date (snd (forEachPart fmt cid st p)) \<noteq> None \<longrightarrow>
            caseId (snd (forEachPart fmt cid st p)) = Some cid)"
proof (cases "beginning (trim p)")
  case None
  from forEachPart_other [OF None, of fmt cid "fst st" "snd st"] assms show ?thesis
    by auto
next
  case (Some b)
  then obtain tok r where "beginning (trim p) = Some (tok, r)" by (cases b) auto
  from forEachPart_beginning [OF this, of fmt cid "fst st" "snd st"] assms show ?thesis
    by auto
qed

lemma foldl_forEachPart_caseId:
  assumes "\<forall>a\<in>set (fst st). date a \<noteq> None \<longrightarrow> caseId a = Some cid"
      and "date (snd st) \<noteq> None \<longrightarrow> caseId (snd st) = Some cid"
  shows "\<forall>a\<in>set (fst (foldl (forEachPart fmt cid) st ps)).
            date a \<noteq> None \<longrightarrow> caseId a = Some cid"
  using assms
proof (induction ps arbitrary: st)
  case Nil
  then show ?case by simp
next
  case (Cons p ps)
  from forEachPart_caseId [OF Cons.prems, of fmt p]
  have "\<forall>a\<in>set (fst (foldl (forEachPart fmt cid) (forEachPart fmt cid st p) ps)).
            date a \<noteq> None \<longrightarrow> caseId a = Some cid"
    by (intro Cons.IH) blast+
  then show ?case by simp
qed

text \<open>
  Claim C10. Every action that \<open>parseActions\<close> returns has the case id that was passed to
  the parser.
\<close>

theorem parseActions_caseId:
  "\<forall>a\<in>set (parseActions fmt text cid). caseId a = Some cid"
proof
  fix a
  assume a: "a \<in> set (parseActions fmt text cid)"
  then have d: "date a \<noteq> None"
    by (auto simp: parseActions_def truthy_def split: option.splits)
  from a have "a \<in> set (pushedActions fmt text cid)"
    by (simp add: parseActions_def)
  then obtain parts where "a \<in> set (fst (foldl (forEachPart fmt cid) ([], emptyAction) parts))"
    by (auto simp: pushedActions_def split: option.splits)
  with foldl_forEachPart_caseId [of "([], emptyAction)" cid fmt parts] d
  show "caseId a = Some cid"
    by (simp add: emptyAction_def)
qed

theorem parseActions_caseId_witness:
  "parseActions momentFormat narrativeTwoLines ''CR1900001'' \<noteq> [] \<and>
   caseId (hd (parseActions momentFormat narrativeTwoLines ''CR1900001'')) = Some ''CR1900001''"
proof -
  have ne: "parseActions momentFormat narrativeTwoLines ''CR1900001'' \<noteq> []"
    unfolding narrativeTwoLines_def by code_simp
  then have "hd (parseActions momentFormat narrativeTwoLines ''CR1900001'')
             \<in> set (parseActions momentFormat narrativeTwoLines ''CR1900001'')"
    by simp
  with ne parseActions_caseId [of momentFormat narrativeTwoLines "''CR1900001''"]
  show ?thesis by blast
qed

lemma forEachPart_fst: "\<exists>more. fst (forEachPart fmt cid st p) = fst st @ more"
proof (cases "beginning (trim p)")
  case None
  from forEachPart_other [OF None, of fmt cid "fst st" "snd st"] show ?thesis by auto
next
  case (Some b)
  then obtain tok r where "beginning (trim p) = Some (tok, r)" by (cases b) auto
  from forEachPart_beginning [OF this, of fmt cid "fst st" "snd st"] show ?thesis by auto
qed

lemma foldl_forEachPart_fst: "\<exists>more. fst (foldl (forEachPart fmt cid) st ps) = fst st @ more"
proof (induction ps arbitrary: st)
  case Nil
  show ?case by simp
next
  case (Cons p ps)
  from Cons.IH [of "forEachPart fmt cid st p"] forEachPart_fst [of fmt cid st p]
  show ?case by auto
qed

lemma forEachPart_opened:
  assumes "(caseId (snd st) = Some cid \<and> date (snd st) = Some d \<and> type (snd st) = Some t) \<or>
           (\<exists>a\<in>set (fst st). caseId a = Some cid \<and> date a = Some d \<and> type a = Some t)"
  shows "(caseId (snd (forEachPart fmt cid st p)) = Some cid \<and>
          date (snd (forEachPart fmt cid st p)) = Some d \<and>
          type (snd (forEachPart fmt cid st p)) = Some t) \<or>
         (\<exists>a\<in>set (fst (forEachPart fmt cid st p)).
            caseId a = Some cid \<and> date a = Some d \<and> type a = Some t)"
proof (cases "beginning (trim p)")
  case None
  from forEachPart_other [OF None, of fmt cid "fst st" "snd st"] assms show ?thesis by auto
next
  case (Some b)
  then obtain tok r where "beginning (trim p) = Some (tok, r)" by (cases b) auto
  from forEachPart_beginning [OF this, of fmt cid "fst st" "snd st"] assms show ?thesis by auto
qed

lemma foldl_forEachPart_opened:
  assumes "(caseId (snd st) = Some cid \<and> date (snd st) = Some d \<and> type (snd st) = Some t) \<or>
           (\<exists>a\<in>set (fst st). caseId a = Some cid \<and> date a = Some d \<and> type a = Some t)"
  shows "(caseId (snd (foldl (forEachPart fmt cid) st ps)) = Some cid \<and>
          date (snd (foldl (forEachPart fmt cid) st ps)) = Some d \<and>
          type (snd (foldl (forEachPart fmt cid) st ps)) = Some t) \<or>
         (\<exists>a\<in>set (fst (foldl (forEachPart fmt cid) st ps)).
            caseId a = Some cid \<and> date a = Some d \<and> type a = Some t)"
  using assms
proof (induction ps arbitrary: st)
  case Nil
  then show ?case by simp
next
  case (Cons p ps)
  from Cons.IH [OF forEachPart_opened [OF Cons.prems, of fmt p]] show ?case by simp
qed

text \<open>
  An action opened by a dated part is in the array once a later dated part has been seen.
\<close>

lemma pushed_between_dates:
  assumes p: "beginning (trim p) = Some (tok, r)"
      and q: "beginning (trim q) = Some (tok', r')"
  shows "\<exists>a\<in>set (fst (foldl (forEachPart fmt cid) st (ps1 @ p # ps2 @ q # ps3))).
           caseId a = Some cid \<and> date a = Some (fmt tok) \<and> type a = Some (trim r)"
proof -
  let ?f = "forEachPart fmt cid"
  let ?Q = "\<lambda>a. caseId a = Some cid \<and> date a = Some (fmt tok) \<and> type a = Some (trim r)"
  define st1 where "st1 = foldl ?f st ps1"
  define st2 where "st2 = ?f st1 p"
  define st3 where "st3 = foldl ?f st2 ps2"
  define st4 where "st4 = ?f st3 q"
  have all: "foldl ?f st (ps1 @ p # ps2 @ q # ps3) = foldl ?f st4 ps3"
    by (simp add: st1_def st2_def st3_def st4_def)
  from forEachPart_beginning [OF p, of fmt cid "fst st1" "snd st1"]
  have "?Q (snd st2)" by (simp add: st2_def emptyAction_def)
  then have "?Q (snd st3) \<or> (\<exists>a\<in>set (fst st3). ?Q a)"
    unfolding st3_def by (intro foldl_forEachPart_opened) simp
  moreover from forEachPart_beginning [OF q, of fmt cid "fst st3" "snd st3"]
  have "fst st4 = fst st3 @ [snd st3]" by (simp add: st4_def)
  ultimately have "\<exists>a\<in>set (fst st4). ?Q a" by auto
  moreover from foldl_forEachPart_fst [of fmt cid st4 ps3]
  obtain more where "fst (foldl ?f st4 ps3) = fst st4 @ more" by blast
  ultimately show ?thesis unfolding all by auto
qed

lemma momentFormat_nonempty: "momentFormat tok \<noteq> []"
  by (simp add: momentFormat_def split: option.splits)

text \<open>The other properties of the actions do not depend on the date library.\<close>

lemma dateless_eq:
  "dateless a = dateless b \<longleftrightarrow>
     caseId a = caseId b \<and> type a = type b \<and> intiated a = intiated b \<and>
     image' a = image' b \<and> other a = other b \<and> id' a = id' b"
  by (cases a; cases b) (auto simp: dateless_def)

lemma forEachPart_dateless:
  assumes "list_all2 (\<lambda>a b. dateless a = dateless b \<and> (date a = None \<longleftrightarrow> date b = None))
             (fst st @ [snd st]) (fst st' @ [snd st'])"
  shows "list_all2 (\<lambda>a b. dateless a = dateless b \<and> (date a = None \<longleftrightarrow> date b = None))
           (fst (forEachPart fmt cid st p) @ [snd (forEachPart fmt cid st p)])
           (fst (forEachPart fmt' cid st' p) @ [snd (forEachPart fmt' cid st' p)])"
proof -
  obtain acts act acts' act' where st: "st = (acts, act)" "st' = (acts', act')"
    by (cases st; cases st') auto
  from assms have len: "length acts = length acts'"
    by (auto simp: st dest: list_all2_lengthD)
  with assms have rel: "list_all2 (\<lambda>a b. dateless a = dateless b \<and> (date a = None \<longleftrightarrow> date b = None)) acts acts'"
    and cur: "dateless act = dateless act'" "date act = None \<longleftrightarrow> date act' = None"
    by (auto simp: st list_all2_append)
  from cur(1) have o: "other act = other act'" by (simp add: dateless_eq)
  show ?thesis
    using rel cur len unfolding st
    by (auto simp: forEachPart_def Let_def list_all2_append dateless_eq o split: option.splits)
qed

lemma foldl_forEachPart_dateless:
  assumes "list_all2 (\<lambda>a b. dateless a = dateless b \<and> (date a = None \<longleftrightarrow> date b = None))
             (fst st @ [snd st]) (fst st' @ [snd st'])"
  shows "list_all2 (\<lambda>a b. dateless a = dateless b \<and> (date a = None \<longleftrightarrow> date b = None))
           (fst (foldl (forEachPart fmt cid) st ps) @ [snd (foldl (forEachPart fmt cid) st ps)])
           (fst (foldl (forEachPart fmt' cid) st' ps) @ [snd (foldl (forEachPart fmt' cid) st' ps)])"
  using assms
proof (induction ps arbitrary: st st')
  case Nil
  then show ?case by simp
next
  case (Cons p ps)
  from Cons.IH [OF forEachPart_dateless [OF Cons.prems, of fmt cid p fmt']] show ?case by simp
qed

lemma forEachPart_dates:
  assumes "\<forall>a\<in>set (fst st @ [snd st]). date a = None \<or> (\<exists>tok. date a = Some (fmt tok))"
  shows "\<forall>a\<in>set (fst (forEachPart fmt cid st p) @ [snd (forEachPart fmt cid st p)]).
           date a = None \<or> (\<exists>tok. date a = Some (fmt tok))"
proof (cases "beginning (trim p)")
  case None
  from forEachPart_other [OF None, of fmt cid "fst st" "snd st"] assms show ?thesis by auto
next
  case (Some b)
  then obtain tok r where "beginning (trim p) = Some (tok, r)" by (cases b) auto
  from forEachPart_beginning [OF this, of fmt cid "fst st" "snd st"] assms show ?thesis by auto
qed

lemma foldl_forEachPart_dates:
  assumes "\<forall>a\<in>set (fst st @ [snd st]). date a = None \<or> (\<exists>tok. date a = Some (fmt tok))"
  shows "\<forall>a\<in>set (fst (foldl (forEachPart fmt cid) st ps) @ [snd (foldl (forEachPart fmt cid) st ps)]).
           date a = None \<or> (\<exists>tok. date a = Some (fmt tok))"
  using assms
proof (induction ps arbitrary: st)
  case Nil
  then show ?case by simp
next
  case (Cons p ps)
  from Cons.IH [OF forEachPart_dates [OF Cons.prems, of cid p]] show ?case by simp
qed

lemma pushed_truthy:
  assumes fmt: "\<forall>t. fmt t \<noteq> []"
      and a: "a \<in> set (fst (foldl (forEachPart fmt cid) ([], emptyAction) parts))"
  shows "truthy (date a) \<longleftrightarrow> date a \<noteq> None"
proof -
  have "\<forall>a\<in>set (fst ([], emptyAction) @ [snd ([], emptyAction)]).
          date a = None \<or> (\<exists>tok. date a = Some (fmt tok))"
    by (simp add: emptyAction_def)
  from foldl_forEachPart_dates [OF this, of cid parts] a
  have "date a = None \<or> (\<exists>tok. date a = Some (fmt tok))"
    by simp
  with fmt show ?thesis
    by (auto simp: truthy_def)
qed

lemma filter_dateless:
  assumes "list_all2 (\<lambda>a b. dateless a = dateless b \<and> (P a \<longleftrightarrow> Q b)) xs ys"
  shows "map dateless (filter P xs) = map dateless (filter Q ys)"
  using assms by (induction xs ys rule: list_all2_induct) auto

lemma parseActions_dateless:
  assumes fmt: "\<forall>t. fmt t \<noteq> []" and fmt': "\<forall>t. fmt' t \<noteq> []"
  shows "map dateless (parseActions fmt text cid) = map dateless (parseActions fmt' text cid)"
proof (cases "actionRegMatch text")
  case None
  then show ?thesis by (simp add: parseActions_def pushedActions_def)
next
  case (Some parts)
  let ?s = "foldl (forEachPart fmt cid) ([], emptyAction) parts"
  let ?s' = "foldl (forEachPart fmt' cid) ([], emptyAction) parts"
  have both: "list_all2 (\<lambda>a b. dateless a = dateless b \<and> (date a = None \<longleftrightarrow> date b = None))
          (fst ?s @ [snd ?s]) (fst ?s' @ [snd ?s'])"
    by (rule foldl_forEachPart_dateless) simp
  from list_all2_lengthD [OF both] have "length (fst ?s) = length (fst ?s')"
    by simp
  with both
  have rel: "list_all2 (\<lambda>a b. dateless a = dateless b \<and> (date a = None \<longleftrightarrow> date b = None))
          (fst ?s) (fst ?s')"
    by (simp add: list_all2_append)
  have d: "\<forall>a\<in>set (fst ?s). truthy (date a) \<longleftrightarrow> date a \<noteq> None"
    using pushed_truthy [OF fmt] by simp
  have d': "\<forall>a\<in>set (fst ?s'). truthy (date a) \<longleftrightarrow> date a \<noteq> None"
    using pushed_truthy [OF fmt'] by simp
  have "list_all2 (\<lambda>a b. dateless a = dateless b \<and> (truthy (date a) \<longleftrightarrow> truthy (date b)))
          (fst ?s) (fst ?s')"
    using rel d d' by (auto simp: list_all2_conv_all_nth)
  from filter_dateless [OF this] Some show ?thesis
    by (simp add: parseActions_def pushedActions_def)
qed

text \<open>
  Claim C7, as amended. A part that begins with a date-shaped token and is followed by a
  later part that begins with one gives an action of the output: it has the case id, the
  rest of the part as its type and, as its date, what the date library formats for the
  token, which is the ISO date when the token parses and the text \<^verbatim>\<open>Invalid date\<close> when it
  does not. So an action whose date token does not parse is kept. Apart from the dates,
  the output is the same as with any other date formatter that never returns the empty
  string: whether a token parses changes nothing but the date of its own action.
\<close>

theorem parseActions_unparsed_date_kept:
  assumes parts: "actionRegMatch text = Some (ps1 @ p # ps2 @ q # ps3)"
      and p: "beginning (trim p) = Some (tok, r)"
      and q: "beginning (trim q) = Some (tok', r')"
      and fmt': "\<forall>t. fmt' t \<noteq> []"
  shows "(\<exists>a. a \<in> set (parseActions momentFormat text cid) \<and>
              caseId a = Some cid \<and> type a = Some (trim r) \<and>
              date a = Some (case momentParse tok of
                               None \<Rightarrow> ''Invalid date''
                             | Some (y, m, d) \<Rightarrow>
                                 zeroFill 4 y @ ''-'' @ zeroFill 2 m @ ''-'' @ zeroFill 2 d)) \<and>
         map dateless (parseActions momentFormat text cid) =
         map dateless (parseActions fmt' text cid)"
proof
  from pushed_between_dates [OF p q, of momentFormat cid "([], emptyAction)" ps1 ps2 ps3] parts
  obtain a where a: "a \<in> set (pushedActions momentFormat text cid)"
    "caseId a = Some cid" "date a = Some (momentFormat tok)" "type a = Some (trim r)"
    by (auto simp: pushedActions_def)
  from a(3) have "truthy (date a)"
    by (simp add: truthy_def momentFormat_nonempty)
  with a(1) have "a \<in> set (parseActions momentFormat text cid)"
    by (simp add: parseActions_def)
  with a(2-4) show "\<exists>a. a \<in> set (parseActions momentFormat text cid) \<and>
              caseId a = Some cid \<and> type a = Some (trim r) \<and>
              date a = Some (case momentParse tok of
                               None \<Rightarrow> ''Invalid date''
                             | Some (y, m, d) \<Rightarrow>
                                 zeroFill 4 y @ ''-'' @ zeroFill 2 m @ ''-'' @ zeroFill 2 d)"
    by (auto simp: momentFormat_def)
next
  from fmt' show "map dateless (parseActions momentFormat text cid) =
                  map dateless (parseActions fmt' text cid)"
    by (intro parseActions_dateless) (simp_all add: momentFormat_nonempty)
qed

theorem parseActions_unparsed_date_kept_witness:
  "actionRegMatch narrativeBadDate = Some ([] @ ''13/45/2020 Motion Filed'' # [] @ ''1/5/2020 Answer Filed'' # []) \<and>
   beginning (trim ''13/45/2020 Motion Filed'') = Some (''13/45/2020'', '' Motion Filed'') \<and>
   beginning (trim ''1/5/2020 Answer Filed'') = Some (''1/5/2020'', '' Answer Filed'') \<and>
   (\<forall>t. (\<lambda>t. ''2020-01-01'') t \<noteq> []) \<and>
   momentParse ''13/45/2020'' = None \<and>
   (\<exists>a. a \<in> set (parseActions momentFormat narrativeBadDate ''CR1900001'') \<and>
        caseId a = Some ''CR1900001'' \<and> type a = Some ''Motion Filed'' \<and>
        date a = Some ''Invalid date'') \<and>
   map dateless (parseActions momentFormat narrativeBadDate ''CR1900001'') =
   map dateless (parseActions (\<lambda>t. ''2020-01-01'') narrativeBadDate ''CR1900001'')"
proof -
  have parts: "actionRegMatch narrativeBadDate =
               Some ([] @ ''13/45/2020 Motion Filed'' # [] @ ''1/5/2020 Answer Filed'' # [])"
    unfolding narrativeBadDate_def by code_simp
  have p: "beginning (trim ''13/45/2020 Motion Filed'') = Some (''13/45/2020'', '' Motion Filed'')"
    by code_simp
  have q: "beginning (trim ''1/5/2020 Answer Filed'') = Some (''1/5/2020'', '' Answer Filed'')"
    by code_simp
  have f: "\<forall>t. (\<lambda>t. ''2020-01-01'') t \<noteq> []" by simp
  have m: "momentParse ''13/45/2020'' = None" by code_simp
  have t: "trim '' Motion Filed'' = ''Motion Filed''" by code_simp
  from parseActions_unparsed_date_kept [OF parts p q f, of "''CR1900001''"] parts p q m t
  show ?thesis by simp
qed

text \<open>
  Claim C7, as stated, fails: the first part of this narrative begins with a date-shaped
  token that is no calendar date, and its action is in the output.
\<close>

theorem parseActions_unparsed_date_counterexample:
  "beginning ''13/45/2020 Motion Filed'' = Some (''13/45/2020'', '' Motion Filed'') \<and>
   momentParse ''13/45/2020'' = None \<and>
   parseActions momentFormat narrativeBadDate ''CR1900001'' =
     [\<lparr>caseId = Some ''CR1900001'', date = Some ''Invalid date'', type = Some ''Motion Filed'',
       intiated = None, image' = None, other = None, id' = None\<rparr>]"
  unfolding narrativeBadDate_def by code_simp

section \<open>Properties of the fetches\<close>

lemma trace_emit [simp]: "trace (emit e w) = trace w @ [e]"
  by (simp add: emit_def)

lemma trace_consoleError [simp]: "trace (consoleError m w) = trace w @ [Log m]"
  by (simp add: consoleError_def)

lemma trace_writeFileSync [simp]: "trace (writeFileSync p c w) = trace w @ [WriteFile p c]"
  by (simp add: writeFileSync_def)

lemma markers_emit [simp]:
  "caseDownloadsFile (emit e w) = caseDownloadsFile w"
  "actionsDownloadsFile (emit e w) = actionsDownloadsFile w"
  "files (emit e w) = files w"
  by (simp_all add: emit_def)

lemma markers_consoleError [simp]:
  "caseDownloadsFile (consoleError m w) = caseDownloadsFile w"
  "actionsDownloadsFile (consoleError m w) = actionsDownloadsFile w"
  "files (consoleError m w) = files w"
  by (simp_all add: consoleError_def)

lemma markers_writeFileSync [simp]:
  "caseDownloadsFile (writeFileSync p c w) = caseDownloadsFile w"
  "actionsDownloadsFile (writeFileSync p c w) = actionsDownloadsFile w"
  by (simp_all add: writeFileSync_def)

text \<open>The trace of \<^verbatim>\<open>downloadAction\<close> up to its request.\<close>

lemma downloadActionBegin_trace:
  "\<exists>ls. trace (snd (downloadActionBegin env cid url aid w)) =
          trace w @ ls @ [MarkAction (actionKey cid aid) True,
                          Request (actionRequest env cid url aid w)] \<and>
        (\<forall>e\<in>set ls. \<exists>m. e = Log m)"
  by (simp add: downloadActionBegin_def Let_def)

lemma downloadAction_trace:
  "\<exists>ls post.
     trace (snd (downloadAction env cid url aid out acts w)) =
       trace w @ ls @ [MarkAction (actionKey cid aid) True,
                       Request (actionRequest env cid url aid w)] @ post \<and>
     (\<forall>e\<in>set ls. \<exists>m. e = Log m) \<and>
     (post = [] \<or>
      (\<exists>status body p. respond env (actionRequest env cid url aid w) = Response status body \<and>
         status < 300 \<and>
         post = [MarkAction (actionKey cid aid) False, WriteFile p (Pdf body)]))"
proof -
  from downloadActionBegin_trace [of env cid url aid w]
  obtain ls where ls:
    "trace (snd (downloadActionBegin env cid url aid w)) =
       trace w @ ls @ [MarkAction (actionKey cid aid) True,
                       Request (actionRequest env cid url aid w)]"
    "\<forall>e\<in>set ls. \<exists>m. e = Log m"
    by blast
  obtain marked w1 where b: "downloadActionBegin env cid url aid w = (marked, w1)"
    by (cases "downloadActionBegin env cid url aid w")
  with ls have w1: "trace w1 = trace w @ ls @ [MarkAction (actionKey cid aid) True,
                       Request (actionRequest env cid url aid w)]"
    by simp
  show ?thesis
  proof (cases "respond env (actionRequest env cid url aid w)")
    case (Failed e)
    with b have "snd (downloadAction env cid url aid out acts w) = w1"
      by (simp add: downloadAction_def)
    with w1 ls(2) show ?thesis
      by (rule_tac x = ls in exI, rule_tac x = "[]" in exI) simp
  next
    case (Response status body)
    show ?thesis
    proof (cases "status \<ge> 300")
      case True
      with Response b have "snd (downloadAction env cid url aid out acts w) = w1"
        by (simp add: downloadAction_def)
      with w1 ls(2) show ?thesis
        by (rule_tac x = ls in exI, rule_tac x = "[]" in exI) simp
    next
      case False
      with Response b obtain p where
        "trace (snd (downloadAction env cid url aid out acts w)) =
           trace w1 @ [MarkAction (actionKey cid aid) False, WriteFile p (Pdf body)]"
        by (simp add: downloadAction_def Let_def)
      with w1 ls(2) Response False show ?thesis
        by (rule_tac x = ls in exI,
            rule_tac x = "[MarkAction (actionKey cid aid) False, WriteFile p (Pdf body)]" in exI)
           simp
    qed
  qed
qed

lemma downloadAction_events:
  "\<exists>post. trace (snd (downloadAction env cid url aid out acts w)) = trace w @ post \<and>
          (\<forall>e\<in>set post. \<not> caseFetchEvent e)"
proof -
  from downloadAction_trace [of env cid url aid out acts w]
  obtain ls post where t:
    "trace (snd (downloadAction env cid url aid out acts w)) =
       trace w @ ls @ [MarkAction (actionKey cid aid) True,
                       Request (actionRequest env cid url aid w)] @ post"
    "\<forall>e\<in>set ls. \<exists>m. e = Log m"
    "post = [] \<or>
      (\<exists>status body p. respond env (actionRequest env cid url aid w) = Response status body \<and>
         status < 300 \<and>
         post = [MarkAction (actionKey cid aid) False, WriteFile p (Pdf body)])"
    by blast
  from t(2,3) have "\<forall>e\<in>set (ls @ [MarkAction (actionKey cid aid) True,
                       Request (actionRequest env cid url aid w)] @ post). \<not> caseFetchEvent e"
    by (auto simp: actionRequest_def)
  with t(1) show ?thesis by (intro exI [of _ "ls @ [MarkAction (actionKey cid aid) True,
                       Request (actionRequest env cid url aid w)] @ post"]) simp
qed

lemma downloadActionBegin_events:
  "\<exists>post. trace (snd (downloadActionBegin env cid url aid w)) = trace w @ post \<and>
          (\<forall>e\<in>set post. \<not> caseFetchEvent e)"
proof -
  from downloadActionBegin_trace [of env cid url aid w]
  obtain ls where ls:
    "trace (snd (downloadActionBegin env cid url aid w)) =
       trace w @ ls @ [MarkAction (actionKey cid aid) True,
                       Request (actionRequest env cid url aid w)]"
    "\<forall>e\<in>set ls. \<exists>m. e = Log m"
    by blast
  from ls(2) have "\<forall>e\<in>set (ls @ [MarkAction (actionKey cid aid) True,
                       Request (actionRequest env cid url aid w)]). \<not> caseFetchEvent e"
    by (auto simp: actionRequest_def)
  with ls(1) show ?thesis by (intro exI [of _ "ls @ [MarkAction (actionKey cid aid) True,
                       Request (actionRequest env cid url aid w)]"]) simp
qed

lemma downloadLinks_events:
  "\<exists>post. trace (snd (downloadLinks env leaving cid out acts links w)) = trace w @ post \<and>
          (\<forall>e\<in>set post. \<not> caseFetchEvent e)"
proof (induction links arbitrary: w)
  case Nil
  show ?case by simp
next
  case (Cons a links)
  show ?case
  proof (cases a)
    case None
    then show ?thesis by simp
  next
    case (Some href)
    show ?thesis
    proof (cases "linkId href")
      case None
      with Some show ?thesis by simp
    next
      case (Some aid)
      note aid = \<open>a = Some href\<close> Some
      show ?thesis
      proof (cases leaving)
        case True
        with aid downloadActionBegin_events [of env cid href aid w] show ?thesis by simp
      next
        case False
        obtain res w1 where dl: "downloadAction env cid href aid out acts w = (res, w1)"
          by (cases "downloadAction env cid href aid out acts w")
        with downloadAction_events [of env cid href aid out acts w]
        obtain post1 where p1: "trace w1 = trace w @ post1" "\<forall>e\<in>set post1. \<not> caseFetchEvent e"
          by auto
        show ?thesis
        proof (cases res)
          case None
          let ?w2 = "consoleError (''Downloaded image '' @ aid @ '' for case '' @ cid) w1"
          from Cons.IH [of ?w2] obtain post2 where
            p2: "trace (snd (downloadLinks env leaving cid out acts links ?w2)) = trace ?w2 @ post2"
                "\<forall>e\<in>set post2. \<not> caseFetchEvent e"
            by blast
          from aid False dl None p1 p2 show ?thesis
            by (intro exI [of _ "post1 @ [Log (''Downloaded image '' @ aid @ '' for case '' @ cid)] @ post2"])
               auto
        next
          case (Some e)
          let ?w2 = "consoleError
                           (''There was an error downloading image '' @ aid @ '' for case '' @ cid)
                           (consoleError (showVal e) w1)"
          from Cons.IH [of ?w2] obtain post2 where
            p2: "trace (snd (downloadLinks env leaving cid out acts links ?w2)) = trace ?w2 @ post2"
                "\<forall>e\<in>set post2. \<not> caseFetchEvent e"
            by blast
          from aid False dl Some p1 p2 show ?thesis
            by (intro exI [of _ "post1 @ [Log (showVal e), Log (''There was an error downloading image '' @ aid @ '' for case '' @ cid)] @ post2"])
               auto
        qed
      qed
    qed
  qed
qed

lemma saveCase_events:
  "\<exists>post. trace (saveCase dir cid data w) = trace w @ post \<and>
          (\<forall>e\<in>set post. \<not> caseFetchEvent e)"
  by (simp add: saveCase_def Let_def actionsSave_def summarySave_def)


lemma receiveCase_data:
  "fst (snd (receiveCase env cid cd status body w)) = extractData env cid (load env body)"
  by (simp add: receiveCase_def Let_def)

lemma receiveCase_outcome:
  "fst (receiveCase env cid cd status body w) =
     (if status \<ge> 300 then Rejected (Str (''Status response of Case URL: '' @ showNat status))
      else if alertLength (load env body) \<noteq> 0 \<and> alertText (load env body) \<noteq> []
      then Rejected (Err (''Error searching for '' @ cid))
      else Pending)"
  by (simp add: receiveCase_def Let_def settle_def)

lemma receiveCase_trace:
  "\<exists>logs.
     trace (snd (snd (receiveCase env cid cd status body w))) =
       trace w @ [WriteFile (rawOutputHTML env cid) (Html body), CheerioLoad body] @ logs @
       [CallParseActions (actionsRaw (extractData env cid (load env body))) cid,
        MarkCase cid False] \<and>
     (\<forall>e\<in>set logs. \<exists>m. e = Log m) \<and>
     (alertLength (load env body) \<noteq> 0 \<and> alertText (load env body) \<noteq> [] \<longrightarrow>
        logs = [Log (''Error from search'' @ [CHR 0x0A] @ ''==='' @ [CHR 0x0A] @
                     trim (replaceSpaces (alertText (load env body))) @ [CHR 0x0A] @ ''===='' @
                     [CHR 0x0A]),
                Log (''Error searching for '' @ cid @
                     '', use the --no-cache option to force a re-fetch.'')])"
proof (cases "alertLength (load env body) \<noteq> 0 \<and> alertText (load env body) \<noteq> []")
  case True
  then show ?thesis
    by (intro exI [of _ "[Log (''Error from search'' @ [CHR 0x0A] @ ''==='' @ [CHR 0x0A] @
                     trim (replaceSpaces (alertText (load env body))) @ [CHR 0x0A] @ ''===='' @
                     [CHR 0x0A]),
                Log (''Error searching for '' @ cid @
                     '', use the --no-cache option to force a re-fetch.'')]"])
       (simp add: receiveCase_def Let_def)
next
  case False
  then show ?thesis
    by (intro exI [of _ "[]"]) (auto simp add: receiveCase_def Let_def)
qed

lemma caseCallback_trace:
  "\<exists>logs post.
     trace (snd (caseCallback env exits cid cd (Response status body) w)) =
       trace w @ [WriteFile (rawOutputHTML env cid) (Html body), CheerioLoad body] @ logs @
       [CallParseActions (actionsRaw (extractData env cid (load env body))) cid,
        MarkCase cid False] @ post \<and>
     (\<forall>e\<in>set logs. \<exists>m. e = Log m) \<and>
     (alertLength (load env body) \<noteq> 0 \<and> alertText (load env body) \<noteq> [] \<longrightarrow>
        logs = [Log (''Error from search'' @ [CHR 0x0A] @ ''==='' @ [CHR 0x0A] @
                     trim (replaceSpaces (alertText (load env body))) @ [CHR 0x0A] @ ''===='' @
                     [CHR 0x0A]),
                Log (''Error searching for '' @ cid @
                     '', use the --no-cache option to force a re-fetch.'')]) \<and>
     (\<forall>e\<in>set post. \<not> caseFetchEvent e)"
proof -
  obtain st2 data w5 where rc: "receiveCase env cid cd status body w = (st2, data, w5)"
    by (cases "receiveCase env cid cd status body w") auto
  from receiveCase_trace [of env cid cd status body w] rc
  obtain logs where logs:
    "trace w5 =
       trace w @ [WriteFile (rawOutputHTML env cid) (Html body), CheerioLoad body] @ logs @
       [CallParseActions (actionsRaw (extractData env cid (load env body))) cid,
        MarkCase cid False]"
    "\<forall>e\<in>set logs. \<exists>m. e = Log m"
    "alertLength (load env body) \<noteq> 0 \<and> alertText (load env body) \<noteq> [] \<longrightarrow>
        logs = [Log (''Error from search'' @ [CHR 0x0A] @ ''==='' @ [CHR 0x0A] @
                     trim (replaceSpaces (alertText (load env body))) @ [CHR 0x0A] @ ''===='' @
                     [CHR 0x0A]),
                Log (''Error searching for '' @ cid @
                     '', use the --no-cache option to force a re-fetch.'')]"
    by auto
  let ?dl = "downloadLinks env (exits \<and> isRejected st2) cid
               (outputCaseActionsDir env cid) (actions data) (actionLinks (load env body)) w5"
  obtain r w6 where dl: "?dl = (r, w6)" by (cases ?dl)
  with downloadLinks_events [of env "exits \<and> isRejected st2" cid "outputCaseActionsDir env cid"
      "actions data" "actionLinks (load env body)" w5]
  obtain post1 where p1: "trace w6 = trace w5 @ post1" "\<forall>e\<in>set post1. \<not> caseFetchEvent e"
    by auto
  from saveCase_events [of "outputCaseDir env cid" cid data w6]
  obtain post2 where p2: "trace (saveCase (outputCaseDir env cid) cid data w6) = trace w6 @ post2"
    "\<forall>e\<in>set post2. \<not> caseFetchEvent e"
    by blast
  have "\<exists>post. trace (snd (caseCallback env exits cid cd (Response status body) w)) = trace w5 @ post \<and>
         (\<forall>e\<in>set post. \<not> caseFetchEvent e)"
  proof (cases r)
    case Done
    with rc dl p1 p2 show ?thesis
      by (intro exI [of _ "post1 @ post2"]) (auto simp: caseCallback_def)
  next
    case Crashed
    with rc dl p1 show ?thesis
      by (intro exI [of _ post1]) (auto simp: caseCallback_def)
  next
    case Exited
    with rc dl p1 show ?thesis
      by (intro exI [of _ post1]) (auto simp: caseCallback_def)
  qed
  then obtain post where
    "trace (snd (caseCallback env exits cid cd (Response status body) w)) = trace w5 @ post"
    "\<forall>e\<in>set post. \<not> caseFetchEvent e"
    by blast
  with logs show ?thesis
    by (rule_tac x = logs in exI, rule_tac x = post in exI) simp
qed

lemma caseCallback_rejected:
  assumes "status \<ge> 300 \<or> (alertLength (load env body) \<noteq> 0 \<and> alertText (load env body) \<noteq> [])"
  shows "fst (caseCallback env exits cid cd (Response status body) w) =
     (if status \<ge> 300 then Rejected (Str (''Status response of Case URL: '' @ showNat status))
      else Rejected (Err (''Error searching for '' @ cid)))"
proof -
  obtain st2 data w5 where rc: "receiveCase env cid cd status body w = (st2, data, w5)"
    by (cases "receiveCase env cid cd status body w") auto
  with receiveCase_outcome [of env cid cd status body w] assms
  have st2: "st2 = (if status \<ge> 300 then Rejected (Str (''Status response of Case URL: '' @ showNat status))
      else Rejected (Err (''Error searching for '' @ cid)))"
    by auto
  then have "settle st2 x = st2" for x
    by (simp add: settle_def)
  with rc st2 show ?thesis
    by (auto simp: caseCallback_def split: prod.splits loopEnd.splits)
qed

lemma getCaseBegin_trace:
  "\<exists>pre. trace (snd (getCaseBegin env cid w)) = trace w @ pre @ [MarkCase cid True] \<and>
         (\<forall>e\<in>set pre. (\<exists>d. e = Mkdirp d) \<or> (\<exists>m. e = Log m)) \<and>
         (readMarkers (caseDownloadsFile w) cid = Some True \<longrightarrow>
            Log (''Case '' @ cid @ '' did not finish downloading, re-downloading.'') \<in> set pre)"
proof (cases "markerSet (readMarkers (caseDownloadsFile w)) cid")
  case True
  then show ?thesis
    by (intro exI [of _ "[Mkdirp (outputCaseDir env cid), Mkdirp (outputCaseActionsDir env cid),
          Log (''Case '' @ cid @ '' did not finish downloading, re-downloading.'')]"])
       (simp add: getCaseBegin_def Let_def)
next
  case False
  then show ?thesis
    by (intro exI [of _ "[Mkdirp (outputCaseDir env cid), Mkdirp (outputCaseActionsDir env cid)]"])
       (simp add: getCaseBegin_def Let_def markerSet_def)
qed

lemma getCaseBegin_files:
  "files (snd (getCaseBegin env cid w)) = files w"
  "caseDownloadsFile (snd (getCaseBegin env cid w)) =
     Some ((readMarkers (caseDownloadsFile w))(cid \<mapsto> True))"
  by (simp_all add: getCaseBegin_def Let_def)


lemma getCase_skip:
  assumes "new env" and "files w (rawOutputHTML env cid) \<noteq> None"
  shows "getCase env exits cid w =
         (Resolved None,
          consoleError (''The --new option is used and the '' @ cid @ '' case HTML output exists.'')
            (snd (getCaseBegin env cid w)))"
proof -
  obtain marked w3 where b: "getCaseBegin env cid w = (marked, w3)"
    by (cases "getCaseBegin env cid w")
  with getCaseBegin_files(1) [of env cid w] have "files w3 = files w" by simp
  with assms b show ?thesis by (simp add: getCase_def)
qed

lemma getCase_fetch:
  assumes "\<not> (new env \<and> files w (rawOutputHTML env cid) \<noteq> None)"
  shows "getCase env exits cid w =
         caseCallback env exits cid (fst (getCaseBegin env cid w))
           (respond env (caseRequest env cid w))
           (emit (Request (caseRequest env cid w))
              (consoleError ([CHR 0x0A] @ ''Getting case'' @
                        (if TTL env \<noteq> 0 then [] else '' (cache off)'') @ '': '' @ cid)
                 (snd (getCaseBegin env cid w))))"
proof -
  obtain marked w3 where b: "getCaseBegin env cid w = (marked, w3)"
    by (cases "getCaseBegin env cid w")
  with getCaseBegin_files(1) [of env cid w] have "files w3 = files w" by simp
  with assms b show ?thesis by (auto simp add: getCase_def Let_def)
qed

text \<open>The trace of a fetch that gets a response.\<close>

lemma getCase_trace:
  assumes fetch: "\<not> (new env \<and> files w (rawOutputHTML env cid) \<noteq> None)"
      and rep: "respond env (caseRequest env cid w) = Response status body"
  shows "\<exists>pre m logs post.
           trace (snd (getCase env exits cid w)) =
             trace w @ pre @
             [MarkCase cid True, Log m, Request (caseRequest env cid w),
              WriteFile (rawOutputHTML env cid) (Html body), CheerioLoad body] @ logs @
             [CallParseActions (actionsRaw (extractData env cid (load env body))) cid,
              MarkCase cid False] @ post \<and>
           (\<forall>e\<in>set pre. (\<exists>d. e = Mkdirp d) \<or> (\<exists>m. e = Log m)) \<and>
           (readMarkers (caseDownloadsFile w) cid = Some True \<longrightarrow>
              Log (''Case '' @ cid @ '' did not finish downloading, re-downloading.'') \<in> set pre) \<and>
           (\<forall>e\<in>set logs. \<exists>m. e = Log m) \<and>
           (alertLength (load env body) \<noteq> 0 \<and> alertText (load env body) \<noteq> [] \<longrightarrow>
              logs = [Log (''Error from search'' @ [CHR 0x0A] @ ''==='' @ [CHR 0x0A] @
                     trim (replaceSpaces (alertText (load env body))) @ [CHR 0x0A] @ ''===='' @
                     [CHR 0x0A]),
                Log (''Error searching for '' @ cid @
                     '', use the --no-cache option to force a re-fetch.'')]) \<and>
           (\<forall>e\<in>set post. \<not> caseFetchEvent e)"
proof -
  let ?m = "[CHR 0x0A] @ ''Getting case'' @ (if TTL env \<noteq> 0 then [] else '' (cache off)'') @ '': '' @ cid"
  let ?w5 = "emit (Request (caseRequest env cid w)) (consoleError ?m (snd (getCaseBegin env cid w)))"
  from getCaseBegin_trace [of env cid w] obtain pre where pre:
    "trace (snd (getCaseBegin env cid w)) = trace w @ pre @ [MarkCase cid True]"
    "\<forall>e\<in>set pre. (\<exists>d. e = Mkdirp d) \<or> (\<exists>m. e = Log m)"
    "readMarkers (caseDownloadsFile w) cid = Some True \<longrightarrow>
            Log (''Case '' @ cid @ '' did not finish downloading, re-downloading.'') \<in> set pre"
    by blast
  from caseCallback_trace [of env exits cid "fst (getCaseBegin env cid w)" status body ?w5]
  obtain logs post where cb:
    "trace (snd (caseCallback env exits cid (fst (getCaseBegin env cid w)) (Response status body) ?w5)) =
       trace ?w5 @ [WriteFile (rawOutputHTML env cid) (Html body), CheerioLoad body] @ logs @
       [CallParseActions (actionsRaw (extractData env cid (load env body))) cid,
        MarkCase cid False] @ post"
    "\<forall>e\<in>set logs. \<exists>m. e = Log m"
    "alertLength (load env body) \<noteq> 0 \<and> alertText (load env body) \<noteq> [] \<longrightarrow>
        logs = [Log (''Error from search'' @ [CHR 0x0A] @ ''==='' @ [CHR 0x0A] @
                     trim (replaceSpaces (alertText (load env body))) @ [CHR 0x0A] @ ''===='' @
                     [CHR 0x0A]),
                Log (''Error searching for '' @ cid @
                     '', use the --no-cache option to force a re-fetch.'')]"
    "\<forall>e\<in>set post. \<not> caseFetchEvent e"
    by blast
  have "trace (snd (getCase env exits cid w)) =
          trace w @ pre @
             [MarkCase cid True, Log ?m, Request (caseRequest env cid w),
              WriteFile (rawOutputHTML env cid) (Html body), CheerioLoad body] @ logs @
             [CallParseActions (actionsRaw (extractData env cid (load env body))) cid,
              MarkCase cid False] @ post"
    unfolding getCase_fetch [OF fetch] rep cb(1) by (simp add: pre(1))
  with pre(2,3) cb(2,3,4) show ?thesis
    by (rule_tac x = pre in exI, rule_tac x = ?m in exI, rule_tac x = logs in exI,
        rule_tac x = post in exI) blast
qed

lemma getCase_failed:
  assumes fetch: "\<not> (new env \<and> files w (rawOutputHTML env cid) \<noteq> None)"
      and rep: "respond env (caseRequest env cid w) = Failed err"
  shows "fst (getCase env exits cid w) = Rejected (Str ''Error requesting Case URL.'')"
    and "\<exists>pre m. trace (snd (getCase env exits cid w)) =
             trace w @ pre @ [MarkCase cid True, Log m, Request (caseRequest env cid w), Log err] \<and>
           (\<forall>e\<in>set pre. (\<exists>d. e = Mkdirp d) \<or> (\<exists>m. e = Log m)) \<and>
           (readMarkers (caseDownloadsFile w) cid = Some True \<longrightarrow>
              Log (''Case '' @ cid @ '' did not finish downloading, re-downloading.'') \<in> set pre)"
proof -
  show "fst (getCase env exits cid w) = Rejected (Str ''Error requesting Case URL.'')"
    unfolding getCase_fetch [OF fetch] rep by (simp add: caseCallback_def)
  let ?m = "[CHR 0x0A] @ ''Getting case'' @ (if TTL env \<noteq> 0 then [] else '' (cache off)'') @ '': '' @ cid"
  from getCaseBegin_trace [of env cid w] obtain pre where pre:
    "trace (snd (getCaseBegin env cid w)) = trace w @ pre @ [MarkCase cid True]"
    "\<forall>e\<in>set pre. (\<exists>d. e = Mkdirp d) \<or> (\<exists>m. e = Log m)"
    "readMarkers (caseDownloadsFile w) cid = Some True \<longrightarrow>
            Log (''Case '' @ cid @ '' did not finish downloading, re-downloading.'') \<in> set pre"
    by blast
  have "trace (snd (getCase env exits cid w)) =
             trace w @ pre @ [MarkCase cid True, Log ?m, Request (caseRequest env cid w), Log err]"
    unfolding getCase_fetch [OF fetch] rep by (simp add: caseCallback_def pre(1))
  with pre(2,3) show "\<exists>pre m. trace (snd (getCase env exits cid w)) =
             trace w @ pre @ [MarkCase cid True, Log m, Request (caseRequest env cid w), Log err] \<and>
           (\<forall>e\<in>set pre. (\<exists>d. e = Mkdirp d) \<or> (\<exists>m. e = Log m)) \<and>
           (readMarkers (caseDownloadsFile w) cid = Some True \<longrightarrow>
              Log (''Case '' @ cid @ '' did not finish downloading, re-downloading.'') \<in> set pre)"
    by (rule_tac x = pre in exI, rule_tac x = ?m in exI) blast
qed

text \<open>The first request of a fetch, and that it is the only request for the page.\<close>

lemma getCase_request:
  assumes fetch: "\<not> (new env \<and> files w (rawOutputHTML env cid) \<noteq> None)"
  shows "\<exists>pre post.
           trace (snd (getCase env exits cid w)) =
             trace w @ pre @ Request (caseRequest env cid w) # post \<and>
           (\<forall>r. Request r \<notin> set pre) \<and>
           (readMarkers (caseDownloadsFile w) cid = Some True \<longrightarrow>
              Log (''Case '' @ cid @ '' did not finish downloading, re-downloading.'') \<in> set pre) \<and>
           (\<forall>t a b c. Request (CaseRequest t a b c) \<notin> set post)"
proof (cases "respond env (caseRequest env cid w)")
  case (Failed err)
  from getCase_failed(2) [OF fetch Failed, of exits] obtain pre m where t:
    "trace (snd (getCase env exits cid w)) =
             trace w @ pre @ [MarkCase cid True, Log m, Request (caseRequest env cid w), Log err]"
    "\<forall>e\<in>set pre. (\<exists>d. e = Mkdirp d) \<or> (\<exists>m. e = Log m)"
    "readMarkers (caseDownloadsFile w) cid = Some True \<longrightarrow>
              Log (''Case '' @ cid @ '' did not finish downloading, re-downloading.'') \<in> set pre"
    by blast
  from t(2) have "\<forall>r. Request r \<notin> set (pre @ [MarkCase cid True, Log m])"
    by auto
  with t(1,3) show ?thesis
    by (rule_tac x = "pre @ [MarkCase cid True, Log m]" in exI, rule_tac x = "[Log err]" in exI)
       simp
next
  case (Response status body)
  from getCase_trace [OF fetch Response, of exits] obtain pre m logs post where t:
    "trace (snd (getCase env exits cid w)) =
             trace w @ pre @
             [MarkCase cid True, Log m, Request (caseRequest env cid w),
              WriteFile (rawOutputHTML env cid) (Html body), CheerioLoad body] @ logs @
             [CallParseActions (actionsRaw (extractData env cid (load env body))) cid,
              MarkCase cid False] @ post"
    "\<forall>e\<in>set pre. (\<exists>d. e = Mkdirp d) \<or> (\<exists>m. e = Log m)"
    "readMarkers (caseDownloadsFile w) cid = Some True \<longrightarrow>
              Log (''Case '' @ cid @ '' did not finish downloading, re-downloading.'') \<in> set pre"
    "\<forall>e\<in>set logs. \<exists>m. e = Log m"
    "\<forall>e\<in>set post. \<not> caseFetchEvent e"
    by blast
  let ?post = "[WriteFile (rawOutputHTML env cid) (Html body), CheerioLoad body] @ logs @
             [CallParseActions (actionsRaw (extractData env cid (load env body))) cid,
              MarkCase cid False] @ post"
  from t(2) have a: "\<forall>r. Request r \<notin> set (pre @ [MarkCase cid True, Log m])"
    by auto
  from t(4,5) have b: "\<forall>t a b c. Request (CaseRequest t a b c) \<notin> set ?post"
    by auto
  from t(1,3) a b show ?thesis
    by (rule_tac x = "pre @ [MarkCase cid True, Log m]" in exI, rule_tac x = ?post in exI)
       simp
qed


text \<open>
  Claim C5. When \<^verbatim>\<open>getCase\<close> fetches (it does unless \<^verbatim>\<open>--new\<close> is given and the raw page
  exists), the first request it hands to the client is the request for the page, and its
  time-to-live is zero when the marker of the case id is set in the marker file, whatever
  the configured value, and the configured value otherwise; no other request for the page
  follows. \<^verbatim>\<open>downloadAction\<close> hands exactly one request to the client, with the
  time-to-live chosen in the same way from the marker of \<^verbatim>\<open>caseId-attachmentId\<close>.
\<close>

theorem forced_refresh_ttl:
  "(\<not> (new env \<and> files w (rawOutputHTML env cid) \<noteq> None) \<longrightarrow>
      (\<exists>pre post.
         trace (snd (getCase env exits cid w)) =
           trace w @ pre @
           Request (CaseRequest
                      (if readMarkers (caseDownloadsFile w) cid = Some True then 0 else TTL env)
                      (take 2 cid) (take 2 (drop 2 cid)) (drop 4 cid)) # post \<and>
         (\<forall>r. Request r \<notin> set pre) \<and>
         (\<forall>t a b c. Request (CaseRequest t a b c) \<notin> set post))) \<and>
   (\<exists>pre post.
      trace (snd (downloadAction env cid url aid out acts w)) =
        trace w @ pre @
        Request (FileRequest
                   (if readMarkers (actionsDownloadsFile w) (cid @ ''-'' @ aid) = Some True
                    then 0 else TTL env) url) # post \<and>
      (\<forall>r. Request r \<notin> set pre) \<and> (\<forall>r. Request r \<notin> set post))"
proof (intro conjI impI)
  assume fetch: "\<not> (new env \<and> files w (rawOutputHTML env cid) \<noteq> None)"
  from getCase_request [OF fetch, of exits] show
    "\<exists>pre post.
         trace (snd (getCase env exits cid w)) =
           trace w @ pre @
           Request (CaseRequest
                      (if readMarkers (caseDownloadsFile w) cid = Some True then 0 else TTL env)
                      (take 2 cid) (take 2 (drop 2 cid)) (drop 4 cid)) # post \<and>
         (\<forall>r. Request r \<notin> set pre) \<and>
         (\<forall>t a b c. Request (CaseRequest t a b c) \<notin> set post)"
    unfolding caseRequest_def markerSet_def by blast
next
  from downloadAction_trace [of env cid url aid out acts w]
  obtain ls post where t:
    "trace (snd (downloadAction env cid url aid out acts w)) =
       trace w @ ls @ [MarkAction (actionKey cid aid) True,
                       Request (actionRequest env cid url aid w)] @ post"
    "\<forall>e\<in>set ls. \<exists>m. e = Log m"
    "post = [] \<or>
      (\<exists>status body p. respond env (actionRequest env cid url aid w) = Response status body \<and>
         status < 300 \<and>
         post = [MarkAction (actionKey cid aid) False, WriteFile p (Pdf body)])"
    by blast
  from t(2) have a: "\<forall>r. Request r \<notin> set (ls @ [MarkAction (actionKey cid aid) True])"
    by auto
  from t(3) have b: "\<forall>r. Request r \<notin> set post"
    by auto
  from t(1) a b show
    "\<exists>pre post.
      trace (snd (downloadAction env cid url aid out acts w)) =
        trace w @ pre @
        Request (FileRequest
                   (if readMarkers (actionsDownloadsFile w) (cid @ ''-'' @ aid) = Some True
                    then 0 else TTL env) url) # post \<and>
      (\<forall>r. Request r \<notin> set pre) \<and> (\<forall>r. Request r \<notin> set post)"
    unfolding actionRequest_def markerSet_def actionKey_def
    by (rule_tac x = "ls @ [MarkAction (cid @ ''-'' @ aid) True]" in exI,
        rule_tac x = post in exI) simp
qed

theorem forced_refresh_ttl_witness:
  "\<not> new envAttachment \<and> TTL envAttachment = 86400000 \<and>
   readMarkers (caseDownloadsFile worldInterrupted) ''CR1900001'' = Some True \<and>
   (\<exists>pre post.
      trace (snd (getCase envAttachment False ''CR1900001'' worldInterrupted)) =
        trace worldInterrupted @ pre @ Request (CaseRequest 0 ''CR'' ''19'' ''00001'') # post \<and>
      (\<forall>r. Request r \<notin> set pre) \<and>
      (\<forall>t a b c. Request (CaseRequest t a b c) \<notin> set post)) \<and>
   readMarkers (actionsDownloadsFile worldInterrupted) (''CR1900001'' @ ''-'' @ ''ab12'') = Some True \<and>
   (\<exists>pre post.
      trace (snd (downloadAction envAttachment ''CR1900001'' ''view?id=ab12&x=1'' ''ab12''
                    ''output/cases/CR1900001/actions'' [] worldInterrupted)) =
        trace worldInterrupted @ pre @ Request (FileRequest 0 ''view?id=ab12&x=1'') # post \<and>
      (\<forall>r. Request r \<notin> set pre) \<and> (\<forall>r. Request r \<notin> set post)) \<and>
   readMarkers (caseDownloadsFile worldFetched) ''CR1900001'' = Some False \<and>
   (\<exists>pre post.
      trace (snd (getCase envAttachment False ''CR1900001'' worldFetched)) =
        trace worldFetched @ pre @ Request (CaseRequest 86400000 ''CR'' ''19'' ''00001'') # post \<and>
      (\<forall>r. Request r \<notin> set pre) \<and>
      (\<forall>t a b c. Request (CaseRequest t a b c) \<notin> set post))"
proof -
  have n: "\<not> new envAttachment" and ttl: "TTL envAttachment = 86400000"
    by (simp_all add: envAttachment_def envTimeout_def)
  have m1: "readMarkers (caseDownloadsFile worldInterrupted) ''CR1900001'' = Some True"
    by (simp add: worldInterrupted_def world0_def readMarkers_def)
  have m2: "readMarkers (actionsDownloadsFile worldInterrupted) (''CR1900001'' @ ''-'' @ ''ab12'') = Some True"
    by (simp add: worldInterrupted_def world0_def readMarkers_def)
  have m3: "readMarkers (caseDownloadsFile worldFetched) ''CR1900001'' = Some False"
    by (simp add: worldFetched_def world0_def readMarkers_def)
  have c: "take 2 ''CR1900001'' = ''CR''" "take 2 (drop 2 ''CR1900001'') = ''19''"
    "drop 4 ''CR1900001'' = ''00001''"
    by simp_all
  from forced_refresh_ttl [of envAttachment worldInterrupted "''CR1900001''" False
      "''view?id=ab12&x=1''" "''ab12''" "''output/cases/CR1900001/actions''" "[]"]
    forced_refresh_ttl [of envAttachment worldFetched "''CR1900001''" False
      "''view?id=ab12&x=1''" "''ab12''" "''output/cases/CR1900001/actions''" "[]"]
    n ttl m1 m2 m3
  show ?thesis
    unfolding c by simp
qed


text \<open>
  Claim C9. With \<^verbatim>\<open>--new\<close> and the raw page of the case on disk, \<^verbatim>\<open>getCase\<close> resolves at
  once: it hands no request to the client, but it has written the marker of the case as
  true and does not write it as false, so the marker file holds true for the case. A later
  call without \<^verbatim>\<open>--new\<close> in the world so left reports the case as not finished and
  requests the page with a time-to-live of zero.
\<close>

theorem new_option_leaves_marker:
  assumes "new env" and "files w (rawOutputHTML env cid) \<noteq> None"
  shows "fst (getCase env exits cid w) = Resolved None \<and>
         (\<exists>evs. trace (snd (getCase env exits cid w)) = trace w @ evs \<and>
                (\<forall>r. Request r \<notin> set evs) \<and>
                MarkCase cid True \<in> set evs \<and> MarkCase cid False \<notin> set evs) \<and>
         readMarkers (caseDownloadsFile (snd (getCase env exits cid w))) cid = Some True \<and>
         (\<forall>env' exits'. \<not> new env' \<longrightarrow>
            (\<exists>pre post.
               trace (snd (getCase env' exits' cid (snd (getCase env exits cid w)))) =
                 trace (snd (getCase env exits cid w)) @ pre @
                 Request (CaseRequest 0 (take 2 cid) (take 2 (drop 2 cid)) (drop 4 cid)) # post \<and>
               (\<forall>r. Request r \<notin> set pre) \<and>
               Log (''Case '' @ cid @ '' did not finish downloading, re-downloading.'') \<in> set pre))"
proof -
  let ?w' = "snd (getCase env exits cid w)"
  note skip = getCase_skip [OF assms, of exits]
  from getCaseBegin_trace [of env cid w] obtain pre where pre:
    "trace (snd (getCaseBegin env cid w)) = trace w @ pre @ [MarkCase cid True]"
    "\<forall>e\<in>set pre. (\<exists>d. e = Mkdirp d) \<or> (\<exists>m. e = Log m)"
    by blast
  let ?evs = "pre @ [MarkCase cid True,
                Log (''The --new option is used and the '' @ cid @ '' case HTML output exists.'')]"
  have t: "trace ?w' = trace w @ ?evs"
    by (simp add: skip pre(1))
  from pre(2) have e: "(\<forall>r. Request r \<notin> set ?evs) \<and> MarkCase cid True \<in> set ?evs \<and>
                      MarkCase cid False \<notin> set ?evs"
    by auto
  have m: "readMarkers (caseDownloadsFile ?w') cid = Some True"
    by (simp add: skip getCaseBegin_files readMarkers_def)
  have again: "\<exists>pre post.
               trace (snd (getCase env' exits' cid ?w')) =
                 trace ?w' @ pre @
                 Request (CaseRequest 0 (take 2 cid) (take 2 (drop 2 cid)) (drop 4 cid)) # post \<and>
               (\<forall>r. Request r \<notin> set pre) \<and>
               Log (''Case '' @ cid @ '' did not finish downloading, re-downloading.'') \<in> set pre"
    if "\<not> new env'" for env' exits'
  proof -
    from that have "\<not> (new env' \<and> files ?w' (rawOutputHTML env' cid) \<noteq> None)" by simp
    from getCase_request [OF this, of exits'] m show ?thesis
      unfolding caseRequest_def markerSet_def by auto
  qed
  from skip t e m again show ?thesis
    by (intro conjI exI [of _ ?evs]) auto
qed

theorem new_option_leaves_marker_witness:
  "new envNew \<and> files worldFetched (rawOutputHTML envNew ''CR1900001'') \<noteq> None \<and>
   readMarkers (caseDownloadsFile worldFetched) ''CR1900001'' = Some False \<and>
   fst (getCase envNew False ''CR1900001'' worldFetched) = Resolved None \<and>
   readMarkers (caseDownloadsFile (snd (getCase envNew False ''CR1900001'' worldFetched)))
     ''CR1900001'' = Some True \<and>
   \<not> new envAttachment \<and>
   (\<exists>pre post.
      trace (snd (getCase envAttachment False ''CR1900001''
                    (snd (getCase envNew False ''CR1900001'' worldFetched)))) =
        trace (snd (getCase envNew False ''CR1900001'' worldFetched)) @ pre @
        Request (CaseRequest 0 ''CR'' ''19'' ''00001'') # post \<and>
      (\<forall>r. Request r \<notin> set pre) \<and>
      Log ''Case CR1900001 did not finish downloading, re-downloading.'' \<in> set pre)"
proof -
  have n: "new envNew"
    by (simp add: envNew_def)
  have f: "files worldFetched (rawOutputHTML envNew ''CR1900001'') \<noteq> None"
    by (simp add: worldFetched_def world0_def rawOutputHTML_def outputCaseDir_def pathJoin_def
        envNew_def envAttachment_def envTimeout_def)
  have m: "readMarkers (caseDownloadsFile worldFetched) ''CR1900001'' = Some False"
    by (simp add: worldFetched_def world0_def readMarkers_def)
  have a: "\<not> new envAttachment"
    by (simp add: envAttachment_def envTimeout_def)
  have c: "take 2 ''CR1900001'' = ''CR''" "take 2 (drop 2 ''CR1900001'') = ''19''"
    "drop 4 ''CR1900001'' = ''00001''"
    "''Case '' @ ''CR1900001'' @ '' did not finish downloading, re-downloading.'' =
     ''Case CR1900001 did not finish downloading, re-downloading.''"
    by simp_all
  from new_option_leaves_marker [OF n f, of False] n f m a show ?thesis
    unfolding c by blast
qed

text \<open>
  Claim C4, as amended. A case fetch that is answered with a status below 300 writes the
  marker of the case as true before it hands the request to the client, and writes it as
  false once, after the raw body has been written, the document loaded and the narrative
  parsed; nothing but directory creation and messages comes before the first write, and
  nothing of the fetch of the page comes after the second. An attachment download writes
  the marker of its key as true before it hands its request to the client, and writes it
  as false only when a response with a status below 300 has arrived.
\<close>

theorem marker_order:
  assumes "\<not> (new env \<and> files w (rawOutputHTML env cid) \<noteq> None)"
      and "respond env (caseRequest env cid w) = Response status body"
      and "status < 300"
  shows "(\<exists>pre m logs post.
            trace (snd (getCase env exits cid w)) =
              trace w @ pre @
              [MarkCase cid True, Log m, Request (caseRequest env cid w),
               WriteFile (rawOutputHTML env cid) (Html body), CheerioLoad body] @ logs @
              [CallParseActions (actionsRaw (extractData env cid (load env body))) cid,
               MarkCase cid False] @ post \<and>
            (\<forall>e\<in>set pre. (\<exists>d. e = Mkdirp d) \<or> (\<exists>m. e = Log m)) \<and>
            (\<forall>e\<in>set logs. \<exists>m. e = Log m) \<and>
            (\<forall>e\<in>set post. \<not> caseFetchEvent e)) \<and>
         (\<exists>ls post.
            trace (snd (downloadAction env cid url aid out acts w)) =
              trace w @ ls @
              [MarkAction (actionKey cid aid) True, Request (actionRequest env cid url aid w)] @
              post \<and>
            (\<forall>e\<in>set ls. \<exists>m. e = Log m) \<and>
            (MarkAction (actionKey cid aid) False \<in> set post \<longrightarrow>
               (\<exists>st b. respond env (actionRequest env cid url aid w) = Response st b \<and>
                       st < 300)))"
proof
  from getCase_trace [OF assms(1,2), of exits] show
    "\<exists>pre m logs post.
            trace (snd (getCase env exits cid w)) =
              trace w @ pre @
              [MarkCase cid True, Log m, Request (caseRequest env cid w),
               WriteFile (rawOutputHTML env cid) (Html body), CheerioLoad body] @ logs @
              [CallParseActions (actionsRaw (extractData env cid (load env body))) cid,
               MarkCase cid False] @ post \<and>
            (\<forall>e\<in>set pre. (\<exists>d. e = Mkdirp d) \<or> (\<exists>m. e = Log m)) \<and>
            (\<forall>e\<in>set logs. \<exists>m. e = Log m) \<and>
            (\<forall>e\<in>set post. \<not> caseFetchEvent e)"
    by blast
next
  from downloadAction_trace [of env cid url aid out acts w]
  obtain ls post where t:
    "trace (snd (downloadAction env cid url aid out acts w)) =
       trace w @ ls @ [MarkAction (actionKey cid aid) True,
                       Request (actionRequest env cid url aid w)] @ post"
    "\<forall>e\<in>set ls. \<exists>m. e = Log m"
    "post = [] \<or>
      (\<exists>status body p. respond env (actionRequest env cid url aid w) = Response status body \<and>
         status < 300 \<and>
         post = [MarkAction (actionKey cid aid) False, WriteFile p (Pdf body)])"
    by blast
  from t(3) have "MarkAction (actionKey cid aid) False \<in> set post \<longrightarrow>
               (\<exists>st b. respond env (actionRequest env cid url aid w) = Response st b \<and>
                       st < 300)"
    by auto
  with t(1,2) show
    "\<exists>ls post.
            trace (snd (downloadAction env cid url aid out acts w)) =
              trace w @ ls @
              [MarkAction (actionKey cid aid) True, Request (actionRequest env cid url aid w)] @
              post \<and>
            (\<forall>e\<in>set ls. \<exists>m. e = Log m) \<and>
            (MarkAction (actionKey cid aid) False \<in> set post \<longrightarrow>
               (\<exists>st b. respond env (actionRequest env cid url aid w) = Response st b \<and>
                       st < 300))"
    by blast
qed


section \<open>The example runs\<close>

lemmas run_defs =
  getCase_def getCaseBegin_def caseCallback_def receiveCase_def extractData_def
  downloadAction_def downloadActionBegin_def actionRequest_def actionKey_def
  caseRequest_def readMarkers_def markerSet_def settle_def isRejected_def
  rawOutputHTML_def outputCaseDir_def outputCaseActionsDir_def pathJoin_def
  emit_def consoleError_def writeFileSync_def saveCase_def actionsSave_def summarySave_def
  linkIdAt_def isIdChar_def isAlnum_def toLower_def numbered_def
  getCases_def script_def main_def truthy_def showVal_def replaceSpaces_def
  Let_def

lemmas example_defs =
  envTimeout_def envStatus500_def envBanner_def envAttachment_def envNoId_def envNew_def
  emptyPage_def world0_def worldInterrupted_def worldFetched_def

lemma trim_narrativeTwoLines: "trim narrativeTwoLines = narrativeTwoLines"
  by (simp add: narrativeTwoLines_def trim_def isSpace_def)

lemma trim_empty: "trim [] = []"
  by (simp add: trim_def)

lemma parseActions_narrativeTwoLines:
  "parseActions momentFormat narrativeTwoLines ''CR1900001'' =
     [\<lparr>caseId = Some ''CR1900001'', date = Some ''2020-01-02'', type = Some ''Case Filed'',
       intiated = None, image' = None, other = None, id' = None\<rparr>]"
  unfolding narrativeTwoLines_def by code_simp

lemma parseActions_empty: "parseActions fmt [] cid = []"
  by (rule parseActions_blank) simp


theorem marker_order_witness:
  "\<not> (new envAttachment \<and> files world0 (rawOutputHTML envAttachment ''CR1900001'') \<noteq> None) \<and>
   respond envAttachment (caseRequest envAttachment ''CR1900001'' world0) =
     Response 200 ''<html>register</html>'' \<and>
   (200 :: nat) < 300 \<and>
   (\<exists>pre m logs post.
      trace (snd (getCase envAttachment False ''CR1900001'' world0)) =
        trace world0 @ pre @
        [MarkCase ''CR1900001'' True, Log m,
         Request (caseRequest envAttachment ''CR1900001'' world0),
         WriteFile (rawOutputHTML envAttachment ''CR1900001'') (Html ''<html>register</html>''),
         CheerioLoad ''<html>register</html>''] @ logs @
        [CallParseActions
           (actionsRaw (extractData envAttachment ''CR1900001''
                          (load envAttachment ''<html>register</html>''))) ''CR1900001'',
         MarkCase ''CR1900001'' False] @ post \<and>
      (\<forall>e\<in>set pre. (\<exists>d. e = Mkdirp d) \<or> (\<exists>m. e = Log m)) \<and>
      (\<forall>e\<in>set logs. \<exists>m. e = Log m) \<and>
      (\<forall>e\<in>set post. \<not> caseFetchEvent e))"
proof -
  have f: "\<not> (new envAttachment \<and>
              files world0 (rawOutputHTML envAttachment ''CR1900001'') \<noteq> None)"
    by (simp add: envAttachment_def envTimeout_def)
  have r: "respond envAttachment (caseRequest envAttachment ''CR1900001'' world0) =
             Response 200 ''<html>register</html>''"
    by (simp add: envAttachment_def envTimeout_def)
  have s: "(200 :: nat) < 300"
    by simp
  from marker_order [OF f r s, of False] f r s show ?thesis
    by blast
qed


text \<open>
  Claim C4, as stated, fails on both counts in this run: the marker of the case is written
  as false after the two parsing calls, and the marker of the attachment is written as
  false before the attachment is written to disk.
\<close>

theorem marker_order_counterexample:
  "take 13 (trace (snd (getCase envAttachment False ''CR1900001'' world0))) =
     [Mkdirp ''output/cases/CR1900001'',
      Mkdirp ''output/cases/CR1900001/actions'',
      MarkCase ''CR1900001'' True,
      Log ([CHR 0x0A] @ ''Getting case: CR1900001''),
      Request (CaseRequest 86400000 ''CR'' ''19'' ''00001''),
      WriteFile ''output/cases/CR1900001/case.CR1900001.html'' (Html ''<html>register</html>''),
      CheerioLoad ''<html>register</html>'',
      CallParseActions narrativeTwoLines ''CR1900001'',
      MarkCase ''CR1900001'' False,
      MarkAction ''CR1900001-ab12'' True,
      Request (FileRequest 86400000 ''view?id=ab12&x=1''),
      MarkAction ''CR1900001-ab12'' False,
      WriteFile ''output/cases/CR1900001/actions/unknown-date--CR1900001_ab12.pdf''
        (Pdf ''<html>register</html>'')]"
  by (simp add: run_defs example_defs trim_narrativeTwoLines trim_empty
      parseActions_narrativeTwoLines)


text \<open>
  Claim C8. A link of the narrative panel without the \<^verbatim>\<open>id\<close> parameter is not skipped:
  the extraction of the attachment id throws, the callback ends there, the promise of
  \<^verbatim>\<open>getCase\<close> is never settled, and neither the next link nor the files of the case are
  reached.
\<close>

theorem link_without_id_stalls:
  "linkId ''view?doc=17'' = None \<and>
   actionLinks (load envNoId ''<html>register</html>'') =
     [Some ''view?doc=17'', Some ''view?id=ab12&x=1''] \<and>
   fst (getCase envNoId False ''CR1900001'' world0) = Pending \<and>
   trace (snd (getCase envNoId False ''CR1900001'' world0)) =
     [Mkdirp ''output/cases/CR1900001'',
      Mkdirp ''output/cases/CR1900001/actions'',
      MarkCase ''CR1900001'' True,
      Log ([CHR 0x0A] @ ''Getting case: CR1900001''),
      Request (CaseRequest 86400000 ''CR'' ''19'' ''00001''),
      WriteFile ''output/cases/CR1900001/case.CR1900001.html'' (Html ''<html>register</html>''),
      CheerioLoad ''<html>register</html>'',
      CallParseActions narrativeTwoLines ''CR1900001'',
      MarkCase ''CR1900001'' False]"
  by (simp add: run_defs example_defs trim_narrativeTwoLines trim_empty)


text \<open>
  Claim C3, as amended. When the response has a status below 300 and an error banner with
  text, the promise of \<^verbatim>\<open>getCase\<close> is rejected with an \<^verbatim>\<open>Error\<close> whose message names the
  case id; the text of the banner is printed, not carried by the error, and the raw page
  has been written before the banner is looked for. A transport error and a status of 300
  or more are rejected with strings, so the search error is told apart from them.
\<close>

theorem search_error_rejection:
  assumes fetch: "\<not> (new env \<and> files w (rawOutputHTML env cid) \<noteq> None)"
  shows "(respond env (caseRequest env cid w) = Response status body \<and> status < 300 \<and>
          alertLength (load env body) \<noteq> 0 \<and> alertText (load env body) \<noteq> [] \<longrightarrow>
            fst (getCase env exits cid w) = Rejected (Err (''Error searching for '' @ cid)) \<and>
            (\<exists>pre post.
               trace (snd (getCase env exits cid w)) =
                 trace w @ pre @
                 [WriteFile (rawOutputHTML env cid) (Html body), CheerioLoad body,
                  Log (''Error from search'' @ [CHR 0x0A] @ ''==='' @ [CHR 0x0A] @
                       trim (replaceSpaces (alertText (load env body))) @ [CHR 0x0A] @
                       ''===='' @ [CHR 0x0A]),
                  Log (''Error searching for '' @ cid @
                       '', use the --no-cache option to force a re-fetch.'')] @ post)) \<and>
         (respond env (caseRequest env cid w) = Failed err \<longrightarrow>
            fst (getCase env exits cid w) = Rejected (Str ''Error requesting Case URL.'')) \<and>
         (respond env (caseRequest env cid w) = Response status' body' \<and> status' \<ge> 300 \<longrightarrow>
            fst (getCase env exits cid w) =
              Rejected (Str (''Status response of Case URL: '' @ showNat status')))"
proof (intro conjI impI)
  assume a: "respond env (caseRequest env cid w) = Response status body \<and> status < 300 \<and>
          alertLength (load env body) \<noteq> 0 \<and> alertText (load env body) \<noteq> []"
  then have rep: "respond env (caseRequest env cid w) = Response status body"
    and banner: "alertLength (load env body) \<noteq> 0 \<and> alertText (load env body) \<noteq> []"
    and ok: "\<not> status \<ge> 300"
    by simp_all
  from banner have "status \<ge> 300 \<or> (alertLength (load env body) \<noteq> 0 \<and> alertText (load env body) \<noteq> [])"
    by simp
  from caseCallback_rejected [OF this] ok
  show "fst (getCase env exits cid w) = Rejected (Err (''Error searching for '' @ cid))"
    unfolding getCase_fetch [OF fetch] rep by simp
  from getCase_trace [OF fetch rep, of exits] banner obtain pre m post where
    "trace (snd (getCase env exits cid w)) =
             trace w @ pre @
             [MarkCase cid True, Log m, Request (caseRequest env cid w),
              WriteFile (rawOutputHTML env cid) (Html body), CheerioLoad body] @
             [Log (''Error from search'' @ [CHR 0x0A] @ ''==='' @ [CHR 0x0A] @
                     trim (replaceSpaces (alertText (load env body))) @ [CHR 0x0A] @ ''===='' @
                     [CHR 0x0A]),
                Log (''Error searching for '' @ cid @
                     '', use the --no-cache option to force a re-fetch.'')] @
             [CallParseActions (actionsRaw (extractData env cid (load env body))) cid,
              MarkCase cid False] @ post"
    by auto
  then show "\<exists>pre post.
               trace (snd (getCase env exits cid w)) =
                 trace w @ pre @
                 [WriteFile (rawOutputHTML env cid) (Html body), CheerioLoad body,
                  Log (''Error from search'' @ [CHR 0x0A] @ ''==='' @ [CHR 0x0A] @
                       trim (replaceSpaces (alertText (load env body))) @ [CHR 0x0A] @
                       ''===='' @ [CHR 0x0A]),
                  Log (''Error searching for '' @ cid @
                       '', use the --no-cache option to force a re-fetch.'')] @ post"
    by (rule_tac x = "pre @ [MarkCase cid True, Log m, Request (caseRequest env cid w)]" in exI,
        rule_tac x = "[CallParseActions (actionsRaw (extractData env cid (load env body))) cid,
              MarkCase cid False] @ post" in exI) simp
next
  assume "respond env (caseRequest env cid w) = Failed err"
  from getCase_failed(1) [OF fetch this]
  show "fst (getCase env exits cid w) = Rejected (Str ''Error requesting Case URL.'')" .
next
  assume a: "respond env (caseRequest env cid w) = Response status' body' \<and> status' \<ge> 300"
  then have "status' \<ge> 300 \<or> (alertLength (load env body') \<noteq> 0 \<and> alertText (load env body') \<noteq> [])"
    by simp
  from caseCallback_rejected [OF this] a
  show "fst (getCase env exits cid w) =
              Rejected (Str (''Status response of Case URL: '' @ showNat status'))"
    unfolding getCase_fetch [OF fetch] by simp
qed

theorem search_error_rejection_witness:
  "\<not> (new envBanner \<and> files world0 (rawOutputHTML envBanner ''CR1900001'') \<noteq> None) \<and>
   respond envBanner (caseRequest envBanner ''CR1900001'' world0) =
     Response 200 ''<html>No case found</html>'' \<and>
   (200 :: nat) < 300 \<and>
   alertLength (load envBanner ''<html>No case found</html>'') \<noteq> 0 \<and>
   alertText (load envBanner ''<html>No case found</html>'') \<noteq> [] \<and>
   fst (getCase envBanner False ''CR1900001'' world0) =
     Rejected (Err ''Error searching for CR1900001'') \<and>
   \<not> (new envTimeout \<and> files world0 (rawOutputHTML envTimeout ''CR1900001'') \<noteq> None) \<and>
   respond envTimeout (caseRequest envTimeout ''CR1900001'' world0) = Failed ''ETIMEDOUT'' \<and>
   fst (getCase envTimeout False ''CR1900001'' world0) =
     Rejected (Str ''Error requesting Case URL.'') \<and>
   \<not> (new envStatus500 \<and> files world0 (rawOutputHTML envStatus500 ''CR1900001'') \<noteq> None) \<and>
   respond envStatus500 (caseRequest envStatus500 ''CR1900001'' world0) =
     Response 500 ''Server Error'' \<and>
   (500 :: nat) \<ge> 300 \<and>
   fst (getCase envStatus500 False ''CR1900001'' world0) =
     Rejected (Str ''Status response of Case URL: 500'')"
proof -
  have f1: "\<not> (new envBanner \<and> files world0 (rawOutputHTML envBanner ''CR1900001'') \<noteq> None)"
    and f2: "\<not> (new envTimeout \<and> files world0 (rawOutputHTML envTimeout ''CR1900001'') \<noteq> None)"
    and f3: "\<not> (new envStatus500 \<and> files world0 (rawOutputHTML envStatus500 ''CR1900001'') \<noteq> None)"
    by (simp_all add: example_defs)
  have r1: "respond envBanner (caseRequest envBanner ''CR1900001'' world0) =
              Response 200 ''<html>No case found</html>''"
    and r2: "respond envTimeout (caseRequest envTimeout ''CR1900001'' world0) = Failed ''ETIMEDOUT''"
    and r3: "respond envStatus500 (caseRequest envStatus500 ''CR1900001'' world0) =
              Response 500 ''Server Error''"
    by (simp_all add: example_defs)
  have b: "alertLength (load envBanner ''<html>No case found</html>'') \<noteq> 0"
    "alertText (load envBanner ''<html>No case found</html>'') \<noteq> []"
    by (simp_all add: example_defs)
  have s: "''Error searching for '' @ ''CR1900001'' = ''Error searching for CR1900001''"
    "''Status response of Case URL: '' @ showNat 500 = ''Status response of Case URL: 500''"
    by (simp_all add: showNat.simps digitChar_def)
  from search_error_rejection [OF f1, of 200 "''<html>No case found</html>''" False]
    search_error_rejection [OF f2, of _ _ False "''ETIMEDOUT''"]
    search_error_rejection [OF f3, of _ _ False _ 500 "''Server Error''"]
    f1 f2 f3 r1 r2 r3 b
  show ?thesis
    unfolding s [symmetric] by simp
qed

text \<open>
  Claim C3, as stated, fails in this run: the error of the rejection does not carry the
  text of the banner, and the raw page, the three CSV files, the JSON document and the rows
  of both stores are all written.
\<close>

theorem search_error_counterexample:
  "alertText (load envBanner ''<html>No case found</html>'') = ''No case found'' \<and>
   fst (getCase envBanner False ''CR1900001'' world0) =
     Rejected (Err ''Error searching for CR1900001'') \<and>
   trace (snd (getCase envBanner False ''CR1900001'' world0)) =
     [Mkdirp ''output/cases/CR1900001'',
      Mkdirp ''output/cases/CR1900001/actions'',
      MarkCase ''CR1900001'' True,
      Log ([CHR 0x0A] @ ''Getting case: CR1900001''),
      Request (CaseRequest 86400000 ''CR'' ''19'' ''00001''),
      WriteFile ''output/cases/CR1900001/case.CR1900001.html''
        (Html ''<html>No case found</html>''),
      CheerioLoad ''<html>No case found</html>'',
      Log (''Error from search'' @ [CHR 0x0A] @ ''==='' @ [CHR 0x0A] @ ''No case found'' @
           [CHR 0x0A] @ ''===='' @ [CHR 0x0A]),
      Log ''Error searching for CR1900001, use the --no-cache option to force a re-fetch.'',
      CallParseActions [] ''CR1900001'',
      MarkCase ''CR1900001'' False,
      WriteFile ''output/cases/CR1900001/case.CR1900001.costs.csv'' (CostsCsv []),
      WriteFile ''output/cases/CR1900001/case.CR1900001.actions.csv'' (ActionsCsv []),
      WriteFile ''output/cases/CR1900001/case.CR1900001.csv''
        (SummaryCsv
           [\<lparr>summaryRow.caseId = ''CR1900001'', summary = [], parties = [],
             arrestingOfficers = [], schedule = [], finances = [], actionsRaw = []\<rparr>]),
      WriteFile ''output/cases/CR1900001/case.CR1900001.json''
        (Json
           \<lparr>summaryRow.caseId = ''CR1900001'', summary = [], parties = [],
            arrestingOfficers = [], schedule = [], finances = [], actionsRaw = [],
            costs = [], actions = []\<rparr>),
      ActionsSave, SummarySave]"
  by (simp add: run_defs example_defs trim_empty parseActions_empty summaryRow.defs
      trim_def isSpace_def)


lemma getCasesLoop_append:
  "getCasesLoop env col pre w = (Completed, w0) \<Longrightarrow>
   getCasesLoop env col (pre @ rows) w = getCasesLoop env col rows w0"
proof (induction pre arbitrary: w)
  case Nil
  then show ?case by simp
next
  case (Cons row pre)
  show ?case
  proof (cases "row col")
    case None
    with Cons show ?thesis by simp
  next
    case (Some cid)
    show ?thesis
    proof (cases "cid = []")
      case True
      with Some Cons show ?thesis by simp
    next
      case False
      obtain st w1 where g: "getCase env True cid w = (st, w1)"
        by (cases "getCase env True cid w")
      with Some False Cons.prems obtain d where "st = Resolved d"
        by (cases st) (auto split: if_splits)
      with g Some False Cons show ?thesis by simp
    qed
  qed
qed

text \<open>
  Claim C2, as amended. In the loop of \<^verbatim>\<open>getCases\<close> over the rows of the CSV, the first
  case id whose fetch is rejected ends the run: the \<^verbatim>\<open>catch\<close> block prints the error when
  tracing is on and calls \<^verbatim>\<open>process.exit(1)\<close>, and the rows that follow are not looked
  at. A missing \<^verbatim>\<open>SCRAPER_CASES_URL\<close> makes the script throw before any case is processed,
  when nothing but the cache directory has been created.
\<close>

theorem getCases_exits_on_rejection:
  "(getCasesLoop env col pre w = (Completed, w0) \<and> row col = Some cid \<and> cid \<noteq> [] \<and>
    getCase env True cid w0 = (Rejected e, w1) \<longrightarrow>
      getCasesLoop env col (pre @ row # rest) w =
        (Exit 1, if debugTrace env then consoleError (showVal e) w1 else w1)) \<and>
   (\<not> truthy (casesUrl env) \<longrightarrow>
      script env w =
        (Uncaught (Err ''Make sure the SCRAPER_CASES_URL environment variable is set.''),
         emit (Mkdirp (cacheDir env)) w))"
proof (intro conjI impI)
  assume a: "getCasesLoop env col pre w = (Completed, w0) \<and> row col = Some cid \<and> cid \<noteq> [] \<and>
    getCase env True cid w0 = (Rejected e, w1)"
  then have "getCasesLoop env col (pre @ row # rest) w = getCasesLoop env col (row # rest) w0"
    by (simp add: getCasesLoop_append)
  with a show "getCasesLoop env col (pre @ row # rest) w =
        (Exit 1, if debugTrace env then consoleError (showVal e) w1 else w1)"
    by simp
next
  assume "\<not> truthy (casesUrl env)"
  then show "script env w =
        (Uncaught (Err ''Make sure the SCRAPER_CASES_URL environment variable is set.''),
         emit (Mkdirp (cacheDir env)) w)"
    by (simp add: script_def Let_def)
qed

theorem getCases_exits_on_rejection_witness:
  "getCasesLoop envTimeout ''case_id'' [] world0 = (Completed, world0) \<and>
   [''case_id'' \<mapsto> ''CR1900001''] ''case_id'' = Some ''CR1900001'' \<and>
   ''CR1900001'' \<noteq> [] \<and>
   fst (getCase envTimeout True ''CR1900001'' world0) =
     Rejected (Str ''Error requesting Case URL.'') \<and>
   fst (getCasesLoop envTimeout ''case_id''
          ([] @ [''case_id'' \<mapsto> ''CR1900001''] # [[''case_id'' \<mapsto> ''CR1900002'']]) world0) =
     Exit 1 \<and>
   \<not> truthy (casesUrl (envTimeout\<lparr>casesUrl := None\<rparr>)) \<and>
   fst (script (envTimeout\<lparr>casesUrl := None\<rparr>) world0) =
     Uncaught (Err ''Make sure the SCRAPER_CASES_URL environment variable is set.'') \<and>
   trace (snd (script (envTimeout\<lparr>casesUrl := None\<rparr>) world0)) = [Mkdirp ''.cache'']"
proof -
  have l: "getCasesLoop envTimeout ''case_id'' [] world0 = (Completed, world0)"
    by simp
  have r: "[''case_id'' \<mapsto> ''CR1900001''] ''case_id'' = Some ''CR1900001''"
    and n: "''CR1900001'' \<noteq> []"
    by simp_all
  have f: "\<not> (new envTimeout \<and> files world0 (rawOutputHTML envTimeout ''CR1900001'') \<noteq> None)"
    by (simp add: example_defs)
  have rep: "respond envTimeout (caseRequest envTimeout ''CR1900001'' world0) = Failed ''ETIMEDOUT''"
    by (simp add: example_defs)
  note g1 = getCase_failed(1) [OF f rep, of True]
  then have g: "getCase envTimeout True ''CR1900001'' world0 =
           (Rejected (Str ''Error requesting Case URL.''),
            snd (getCase envTimeout True ''CR1900001'' world0))"
    by (simp add: prod_eq_iff)
  have u: "\<not> truthy (casesUrl (envTimeout\<lparr>casesUrl := None\<rparr>))"
    by (simp add: truthy_def)
  have c: "cacheDir (envTimeout\<lparr>casesUrl := None\<rparr>) = ''.cache''" "trace world0 = []"
    by (simp_all add: example_defs)
  from getCases_exits_on_rejection [of envTimeout "''case_id''" "[]" world0 world0
      "[''case_id'' \<mapsto> ''CR1900001'']" "''CR1900001''" "Str ''Error requesting Case URL.''"
      "snd (getCase envTimeout True ''CR1900001'' world0)" "[[''case_id'' \<mapsto> ''CR1900002'']]"]
    l r n g
  have a: "fst (getCasesLoop envTimeout ''case_id''
          ([] @ [''case_id'' \<mapsto> ''CR1900001''] # [[''case_id'' \<mapsto> ''CR1900002'']]) world0) =
     Exit 1"
    by simp
  from getCases_exits_on_rejection [of "envTimeout\<lparr>casesUrl := None\<rparr>" _ _ world0] u c
  have b: "fst (script (envTimeout\<lparr>casesUrl := None\<rparr>) world0) =
     Uncaught (Err ''Make sure the SCRAPER_CASES_URL environment variable is set.'') \<and>
   trace (snd (script (envTimeout\<lparr>casesUrl := None\<rparr>) world0)) = [Mkdirp ''.cache'']"
    by simp
  from l r n g1 a u b show ?thesis
    by blast
qed

text \<open>
  Claim C2, as stated, fails in this run over a CSV with two case ids: the fetch of the
  first is rejected, the process exits with status 1, and nothing is done for the second.
\<close>

theorem getCases_continue_counterexample:
  "csvFiles envTimeout ''ids.csv'' =
     Some [[''case_id'' \<mapsto> ''CR1900001''], [''case_id'' \<mapsto> ''CR1900002'']] \<and>
   fst (getCases envTimeout ''ids.csv'' ''case_id'' world0) = Exit 1 \<and>
   trace (snd (getCases envTimeout ''ids.csv'' ''case_id'' world0)) =
     [Mkdirp ''output/cases/CR1900001'',
      Mkdirp ''output/cases/CR1900001/actions'',
      MarkCase ''CR1900001'' True,
      Log ([CHR 0x0A] @ ''Getting case: CR1900001''),
      Request (CaseRequest 86400000 ''CR'' ''19'' ''00001''),
      Log ''ETIMEDOUT'']"
  by (simp add: run_defs example_defs)


end
